theory Spec2Isabelle
  imports Complex_Main "HOL-Library.AList" "HOL-Library.Sublist"
begin

section \<open>The room registry\<close>

text \<open>
  A JavaScript \<^verbatim>\<open>Map<string, V>\<close> is modelled as an association list in insertion
  order: \<open>map_of\<close> is \<open>get\<close>, \<open>AList.update\<close> is \<open>set\<close> (an existing key keeps
  its place, a new key is appended) and \<open>AList.delete\<close> is \<open>delete\<close>. A \<open>Date\<close> is its
  time value in milliseconds. Functions that read the clock take the current time
  \<open>now\<close> as an argument; functions that change the manager return the new manager.
\<close>

datatype room_status = RoomWaiting | RoomPreparing | RoomPlaying | RoomFinished

record player =
  player_id :: string
  player_name :: string
  roomCode :: string
  socketId :: string
  connected :: bool

record ready_state =
  ready :: bool
  hasMic :: bool

record room =
  code :: string
  hostSocketId :: string
  players :: "(string \<times> player) list"
  gameState :: room_status
  createdAt :: int
  hostDisconnectedAt :: "int option"
  readyPlayers :: "(string \<times> ready_state) list option"

record room_manager =
  rooms :: "(string \<times> room) list"
  playerToRoom :: "(string \<times> string) list"

subsection \<open>RoomManager\<close>

text \<open>
  \<^verbatim>\<open>Math.random()\<close> is an input of the model: \<open>generateRoomCode\<close> reads its draws
  (numbers in \<open>[0, 1)\<close>) from a list, four per attempt. The \<^verbatim>\<open>do ... while\<close> loop of
  the source repeats as long as the drawn code is taken and may repeat forever; here
  it ends with \<open>None\<close> when the supplied draws are used up before a free code is found.
\<close>

definition characters :: string where
  "characters = ''ABCDEFGHIJKLMNOPQRSTUVWXYZ''"

definition charAt :: "string \<Rightarrow> nat \<Rightarrow> string" where
  "charAt s i = (if i < length s then [s ! i] else [])"

definition random_index :: "real \<Rightarrow> nat" where
  "random_index r = nat \<lfloor>r * real (length characters)\<rfloor>"

fun generateRoomCode :: "(string \<times> room) list \<Rightarrow> real list \<Rightarrow> (string \<times> real list) option" where
  "generateRoomCode rs (r1 # r2 # r3 # r4 # rest) =
     (let c = charAt characters (random_index r1) @ charAt characters (random_index r2) @
              charAt characters (random_index r3) @ charAt characters (random_index r4)
      in if map_of rs c \<noteq> None then generateRoomCode rs rest else Some (c, rest))"
| "generateRoomCode rs _ = None"

definition createRoom ::
  "int \<Rightarrow> real list \<Rightarrow> string \<Rightarrow> room_manager \<Rightarrow> (string \<times> real list \<times> room_manager) option" where
  "createRoom now draws hostSocket s =
     (case generateRoomCode (rooms s) draws of
        None \<Rightarrow> None
      | Some (c, rest) \<Rightarrow>
          Some (c, rest,
            s\<lparr>rooms := AList.update c
                 \<lparr>code = c, hostSocketId = hostSocket, players = [], gameState = RoomWaiting,
                  createdAt = now, hostDisconnectedAt = None, readyPlayers = Some []\<rparr>
                 (rooms s)\<rparr>))"

definition joinRoom :: "string \<Rightarrow> player \<Rightarrow> room_manager \<Rightarrow> bool \<times> room_manager" where
  "joinRoom rc p s =
     (case map_of (rooms s) rc of
        None \<Rightarrow> (False, s)
      | Some r \<Rightarrow>
          if gameState r \<noteq> RoomWaiting then (False, s)
          else (True,
            s\<lparr>rooms := AList.update rc (r\<lparr>players := AList.update (player_id p) p (players r)\<rparr>) (rooms s),
              playerToRoom := AList.update (socketId p) rc (playerToRoom s)\<rparr>))"

text \<open>
  The loop of \<open>leaveRoom\<close> over \<open>room.players\<close>: the first player (in insertion order)
  bound to the socket is flagged \<open>connected = false\<close> and its key is returned; the loop
  stops there.
\<close>

fun mark_disconnected :: "string \<Rightarrow> (string \<times> player) list \<Rightarrow> string option \<times> (string \<times> player) list" where
  "mark_disconnected sid [] = (None, [])"
| "mark_disconnected sid ((i, p) # ps) =
     (if socketId p = sid then (Some i, (i, p\<lparr>connected := False\<rparr>) # ps)
      else (fst (mark_disconnected sid ps), (i, p) # snd (mark_disconnected sid ps)))"

datatype leave_result = LeaveResult (lr_roomCode: string) (lr_playerId: string) (lr_isHost: "bool option")

text \<open>
  \<open>leaveRoom\<close> returns \<open>null\<close> (here \<open>None\<close>) when the socket has no entry in
  \<open>playerToRoom\<close> (or the entry is the empty string, which is falsy), and when the
  room of the entry is gone. Otherwise the binding of the socket is deleted; a host
  socket stamps \<open>hostDisconnectedAt\<close> with the current time \<open>now\<close>.
\<close>

definition leaveRoom :: "int \<Rightarrow> string \<Rightarrow> room_manager \<Rightarrow> leave_result option \<times> room_manager" where
  "leaveRoom now sid s =
     (case map_of (playerToRoom s) sid of
        None \<Rightarrow> (None, s)
      | Some rc \<Rightarrow>
          if rc = [] then (None, s)
          else (case map_of (rooms s) rc of
            None \<Rightarrow> (None, s)
          | Some r \<Rightarrow>
              (let found = fst (mark_disconnected sid (players r));
                   r1 = r\<lparr>players := snd (mark_disconnected sid (players r))\<rparr>;
                   p2r = AList.delete sid (playerToRoom s)
               in if hostSocketId r = sid
                  then (Some (LeaveResult rc ''host'' (Some True)),
                        s\<lparr>rooms := AList.update rc (r1\<lparr>hostDisconnectedAt := Some now\<rparr>) (rooms s),
                          playerToRoom := p2r\<rparr>)
                  else ((case found of
                           None \<Rightarrow> None
                         | Some i \<Rightarrow> if i = [] then None else Some (LeaveResult rc i None)),
                        s\<lparr>rooms := AList.update rc r1 (rooms s), playerToRoom := p2r\<rparr>))))"

definition startGame_room :: "string \<Rightarrow> room_manager \<Rightarrow> bool \<times> room_manager" where
  "startGame_room rc s =
     (case map_of (rooms s) rc of
        None \<Rightarrow> (False, s)
      | Some r \<Rightarrow>
          if length (players r) < 1 then (False, s)
          else (True, s\<lparr>rooms := AList.update rc (r\<lparr>gameState := RoomPlaying\<rparr>) (rooms s)\<rparr>))"

definition endGame_room :: "string \<Rightarrow> room_manager \<Rightarrow> bool \<times> room_manager" where
  "endGame_room rc s =
     (case map_of (rooms s) rc of
        None \<Rightarrow> (False, s)
      | Some r \<Rightarrow> (True, s\<lparr>rooms := AList.update rc (r\<lparr>gameState := RoomFinished\<rparr>) (rooms s)\<rparr>))"

definition resetRoom :: "string \<Rightarrow> room_manager \<Rightarrow> bool \<times> room_manager" where
  "resetRoom rc s =
     (case map_of (rooms s) rc of
        None \<Rightarrow> (False, s)
      | Some r \<Rightarrow>
          (True, s\<lparr>rooms := AList.update rc
             (r\<lparr>gameState := RoomWaiting,
                readyPlayers := (case readyPlayers r of None \<Rightarrow> None | Some _ \<Rightarrow> Some [])\<rparr>)
             (rooms s)\<rparr>))"

definition reconnectHost :: "string \<Rightarrow> string \<Rightarrow> room_manager \<Rightarrow> room option \<times> room_manager" where
  "reconnectHost rc newSocketId s =
     (case map_of (rooms s) rc of
        None \<Rightarrow> (None, s)
      | Some r \<Rightarrow>
          (let r' = r\<lparr>hostSocketId := newSocketId, hostDisconnectedAt := None\<rparr>
           in (Some r', s\<lparr>rooms := AList.update rc r' (rooms s)\<rparr>)))"

definition reconnectPlayer ::
  "string \<Rightarrow> string \<Rightarrow> string \<Rightarrow> room_manager \<Rightarrow> player option \<times> room_manager" where
  "reconnectPlayer rc pid newSocketId s =
     (case map_of (rooms s) rc of
        None \<Rightarrow> (None, s)
      | Some r \<Rightarrow>
          (case map_of (players r) pid of
             None \<Rightarrow> (None, s)
           | Some p \<Rightarrow>
               (let p' = p\<lparr>socketId := newSocketId, connected := True\<rparr>
                in (Some p',
                    s\<lparr>rooms := AList.update rc (r\<lparr>players := AList.update pid p' (players r)\<rparr>) (rooms s),
                      playerToRoom := AList.update newSocketId rc (playerToRoom s)\<rparr>))))"

text \<open>
  The hourly sweep. Each room of the registry is visited once, in insertion order;
  deleting the visited entry does not disturb the iteration of a JavaScript map. The
  socket of every player of a deleted room is deleted from \<open>playerToRoom\<close>.
\<close>

definition release_players :: "(string \<times> player) list \<Rightarrow> (string \<times> string) list \<Rightarrow> (string \<times> string) list" where
  "release_players ps p2r = foldl (\<lambda>m p. AList.delete (socketId (snd p)) m) p2r ps"

definition room_expired :: "int \<Rightarrow> room \<Rightarrow> bool" where
  "room_expired now r =
     (if createdAt r < now - 2 * 60 * 60 * 1000 then True
      else (case hostDisconnectedAt r of
              None \<Rightarrow> False
            | Some t \<Rightarrow> t < now - 30 * 1000))"

fun cleanup_loop :: "int \<Rightarrow> (string \<times> room) list \<Rightarrow> room_manager \<Rightarrow> room_manager" where
  "cleanup_loop now [] s = s"
| "cleanup_loop now ((c, r) # rest) s =
     cleanup_loop now rest
       (if room_expired now r
        then s\<lparr>rooms := AList.delete c (rooms s),
               playerToRoom := release_players (players r) (playerToRoom s)\<rparr>
        else s)"

definition cleanupOldRooms :: "int \<Rightarrow> room_manager \<Rightarrow> room_manager" where
  "cleanupOldRooms now s = cleanup_loop now (rooms s) s"

text \<open>The scan behind the 2-second notifier: it only reads the registry.\<close>

definition notify_due :: "int \<Rightarrow> room \<Rightarrow> bool" where
  "notify_due now r =
     (case hostDisconnectedAt r of
        None \<Rightarrow> False
      | Some t \<Rightarrow> t < now - 5 * 1000 \<and> t > now - 30 * 1000)"

fun notify_loop :: "int \<Rightarrow> (string \<times> room) list \<Rightarrow> string list \<Rightarrow> string list" where
  "notify_loop now [] roomCodes = roomCodes"
| "notify_loop now ((c, r) # rest) roomCodes =
     notify_loop now rest (if notify_due now r then roomCodes @ [c] else roomCodes)"

definition getRoomsToNotifyHostDisconnect :: "int \<Rightarrow> room_manager \<Rightarrow> string list" where
  "getRoomsToNotifyHostDisconnect now s = notify_loop now (rooms s) []"

definition removePlayer :: "string \<Rightarrow> string \<Rightarrow> room_manager \<Rightarrow> bool \<times> room_manager" where
  "removePlayer rc pid s =
     (case map_of (rooms s) rc of
        None \<Rightarrow> (False, s)
      | Some r \<Rightarrow>
          (case map_of (players r) pid of
             None \<Rightarrow> (False, s)
           | Some p \<Rightarrow>
               (True,
                s\<lparr>rooms := AList.update rc (r\<lparr>players := AList.delete pid (players r)\<rparr>) (rooms s),
                  playerToRoom := (if socketId p \<noteq> [] then AList.delete (socketId p) (playerToRoom s)
                                   else playerToRoom s)\<rparr>)))"

definition new_manager :: room_manager where
  "new_manager = \<lparr>rooms = [], playerToRoom = []\<rparr>"

subsection \<open>The notifier interval of the server\<close>

text \<open>
  The third interval of the server runs every 2000 ms and emits \<open>hostDisconnected\<close> to
  every room that the scan returns. \<open>notifier_tick\<close> is one run, as the list of
  (time, room) emissions; \<open>notifier_run\<close> is a sequence of runs at the given times over
  a registry that does not change in between.
\<close>

definition notifier_tick :: "int \<Rightarrow> room_manager \<Rightarrow> (int \<times> string) list" where
  "notifier_tick now s = map (\<lambda>c. (now, c)) (getRoomsToNotifyHostDisconnect now s)"

fun notifier_run :: "int list \<Rightarrow> room_manager \<Rightarrow> (int \<times> string) list" where
  "notifier_run [] s = []"
| "notifier_run (t # ts) s = notifier_tick t s @ notifier_run ts s"

subsection \<open>Histories of the registry\<close>

text \<open>
  The calls that change a \<open>RoomManager\<close>, as operations, and the registry a list of
  them leaves behind. A \<open>createRoom\<close> whose code draw does not end changes nothing.
  \<open>registry_ok\<close> says that every room is stored under its own code, that this code
  is four letters of \<open>characters\<close>, and that no key occurs twice.
\<close>

datatype rm_op =
    CreateRoom int "real list" string
  | JoinRoom string player
  | LeaveRoom int string
  | StartGame string
  | EndGame string
  | ResetRoom string
  | ReconnectHost string string
  | ReconnectPlayer string string string
  | CleanupOldRooms int
  | RemovePlayer string string

fun rm_step :: "rm_op \<Rightarrow> room_manager \<Rightarrow> room_manager" where
  "rm_step (CreateRoom now draws h) s =
     (case createRoom now draws h s of None \<Rightarrow> s | Some (c, rest, s') \<Rightarrow> s')"
| "rm_step (JoinRoom rc p) s = snd (joinRoom rc p s)"
| "rm_step (LeaveRoom now sid) s = snd (leaveRoom now sid s)"
| "rm_step (StartGame rc) s = snd (startGame_room rc s)"
| "rm_step (EndGame rc) s = snd (endGame_room rc s)"
| "rm_step (ResetRoom rc) s = snd (resetRoom rc s)"
| "rm_step (ReconnectHost rc n) s = snd (reconnectHost rc n s)"
| "rm_step (ReconnectPlayer rc pid n) s = snd (reconnectPlayer rc pid n s)"
| "rm_step (CleanupOldRooms now) s = cleanupOldRooms now s"
| "rm_step (RemovePlayer rc pid) s = snd (removePlayer rc pid s)"

definition rm_run :: "rm_op list \<Rightarrow> room_manager \<Rightarrow> room_manager" where
  "rm_run ops s = foldl (\<lambda>s' x. rm_step x s') s ops"

definition unit_draw :: "real \<Rightarrow> bool" where
  "unit_draw r = (0 \<le> r \<and> r < 1)"

fun op_draws_ok :: "rm_op \<Rightarrow> bool" where
  "op_draws_ok (CreateRoom now draws h) = list_all unit_draw draws"
| "op_draws_ok _ = True"

definition valid_code :: "string \<Rightarrow> bool" where
  "valid_code c = (length c = 4 \<and> list_all (\<lambda>ch. ch \<in> set characters) c)"

definition registry_ok :: "room_manager \<Rightarrow> bool" where
  "registry_ok s =
     (distinct (map fst (rooms s)) \<and> list_all (\<lambda>e. code (snd e) = fst e \<and> valid_code (fst e)) (rooms s))"

text \<open>
  \<open>players_ok\<close> says that the players of a room are stored under their own ids, each
  id once.
\<close>

definition players_ok :: "room \<Rightarrow> bool" where
  "players_ok r =
     (distinct (map fst (players r)) \<and> list_all (\<lambda>e. player_id (snd e) = fst e) (players r))"

definition rooms_players_ok :: "room_manager \<Rightarrow> bool" where
  "rooms_players_ok s = list_all (\<lambda>e. players_ok (snd e)) (rooms s)"

section \<open>Game sessions\<close>

text \<open>
  A game is a tagged union over its mode; the constructor is the \<open>mode\<close> tag. Only the
  two modes that \<open>createGame\<close> builds occur in \<open>games\<close> (it throws for the others).
  JavaScript numbers are modelled as reals.
\<close>

datatype game_status = GameWaiting | GameCountdown | GamePlaying | GameFinished

record point =
  point_x :: real
  point_y :: real

record player_game_state =
  pgs_id :: string
  pgs_name :: string
  score :: real
  isAlive :: bool
  position :: "point option"

record base_game_state =
  status :: game_status
  startTime :: "int option"
  endTime :: "int option"
  winner :: "string option"
  game_players :: "(string \<times> player_game_state) list"

record voice_racer_state = base_game_state +
  trackLength :: real
  playerPositions :: "(string \<times> real) list"
  playerSpeeds :: "(string \<times> real) list"
  playerWords :: "(string \<times> string) list"

record team_lists =
  red :: "string list"
  blue :: "string list"

record tug_of_war_state = base_game_state +
  teams :: team_lists
  tug_playerWords :: "(string \<times> string) list"
  ropePosition :: real

datatype game_state = VoiceRacerGame voice_racer_state | TugOfWarGame tug_of_war_state

record game_action =
  playerId :: string
  action_command :: string
  action_timestamp :: int
  action_matchScore :: "real option"

datatype game_event = Countdown string int

record game_manager =
  games :: "(string \<times> game_state) list"
  gameLoops :: "(string \<times> unit) list"
  emitted :: "(int \<times> game_event) list"

definition game_status_of :: "game_state \<Rightarrow> game_status" where
  "game_status_of game = (case game of VoiceRacerGame g \<Rightarrow> status g | TugOfWarGame g \<Rightarrow> status g)"

definition set_status :: "game_status \<Rightarrow> game_state \<Rightarrow> game_state" where
  "set_status st game =
     (case game of
        VoiceRacerGame g \<Rightarrow> VoiceRacerGame (g\<lparr>status := st\<rparr>)
      | TugOfWarGame g \<Rightarrow> TugOfWarGame (g\<lparr>status := st\<rparr>))"

definition set_startTime :: "int \<Rightarrow> game_state \<Rightarrow> game_state" where
  "set_startTime t game =
     (case game of
        VoiceRacerGame g \<Rightarrow> VoiceRacerGame (g\<lparr>startTime := Some t\<rparr>)
      | TugOfWarGame g \<Rightarrow> TugOfWarGame (g\<lparr>startTime := Some t\<rparr>))"

subsection \<open>Creating a tug-of-war session\<close>

text \<open>
  Creating a tug-of-war session. The \<open>k\<close>-th call of \<^verbatim>\<open>Math.random()\<close> returns
  \<open>draws k\<close>. \<open>shuffle_from i\<close> is the Fisher-Yates loop from index \<open>i\<close> down to 1;
  \<open>tug_loop\<close> is the \<open>forEach\<close> over the players in the order of the room's map, with
  the states, the words, the red and the blue team built so far.
\<close>

definition RACING_WORDS :: "string list" where
  "RACING_WORDS =
     [''wifi'', ''gravity'', ''homework'', ''rockets'', ''tuxedos'', ''waves'', ''math'',
      ''cookies'', ''poetry'', ''sweaters'', ''insurance'', ''murals'', ''ferraris'', ''yoga'',
      ''castles'', ''chess'', ''restaurants'', ''websites'', ''podcasts'', ''hair'', ''storms'',
      ''revolutions'', ''tacos'', ''karate'', ''ninjas'', ''helicopters'', ''kingdoms'',
      ''symphonies'', ''mysteries'', ''pyramids'', ''pizza'', ''marathons'', ''crime'',
      ''saxophone'', ''pineapples'', ''bands'', ''dance'', ''bitcoin'', ''rainbows'',
      ''volleyball'', ''novels'', ''bread'', ''professionally'', ''vacuums'', ''mittens'',
      ''ceramics'', ''computers'', ''opera'', ''origami'', ''parties'', ''coffee'', ''hearts'',
      ''screenplays'', ''drums'', ''physics'', ''bicycles'', ''pools'', ''flowers'',
      ''mainframes'', ''spotlight'', ''loudly'', ''nails'', ''feelings'', ''magic'',
      ''lawyers'', ''jazz'', ''chaos'', ''cupcakes'', ''kindergarten'', ''submarines'',
      ''socks'', ''backwards'', ''poorly'', ''war'', ''high'', ''internet'', ''portraits'',
      ''fast'', ''jokes'', ''ballads'', ''hard'', ''spaceships'', ''boats'', ''mockingly'',
      ''salsa'', ''jets'', ''knights'', ''gossip'', ''masterpieces'', ''systems'', ''fortunes'',
      ''disco'', ''blogs'', ''treasure'', ''reality'']"

fun shuffle_from :: "nat \<Rightarrow> (nat \<Rightarrow> real) \<Rightarrow> nat \<Rightarrow> string list \<Rightarrow> string list" where
  "shuffle_from 0 draws k ws = ws"
| "shuffle_from (Suc i) draws k ws =
     (let j = nat \<lfloor>draws k * real (Suc i + 1)\<rfloor>
      in shuffle_from i draws (Suc k) (ws[Suc i := ws ! j, j := ws ! Suc i]))"

definition shuffled_words :: "(nat \<Rightarrow> real) \<Rightarrow> string list" where
  "shuffled_words draws = shuffle_from (length RACING_WORDS - 1) draws 0 RACING_WORDS"

fun tug_loop ::
  "nat \<Rightarrow> string list \<Rightarrow> nat \<Rightarrow> player list \<Rightarrow>
   (string \<times> player_game_state) list \<times> (string \<times> string) list \<times> string list \<times> string list \<Rightarrow>
   (string \<times> player_game_state) list \<times> (string \<times> string) list \<times> string list \<times> string list" where
  "tug_loop midpoint availableWords index [] acc = acc"
| "tug_loop midpoint availableWords index (p # ps) (states, pwords, redTeam, blueTeam) =
     tug_loop midpoint availableWords (Suc index) ps
       (AList.update (player_id p)
          \<lparr>pgs_id = player_id p, pgs_name = player_name p, score = 0, isAlive = True,
           position = Some \<lparr>point_x = (if index < midpoint then 25 else 75), point_y = 50\<rparr>\<rparr> states,
        AList.update (player_id p) (availableWords ! (index mod length availableWords)) pwords,
        (if index < midpoint then redTeam @ [player_id p] else redTeam),
        (if index < midpoint then blueTeam else blueTeam @ [player_id p]))"

definition createTugOfWarGame :: "(string \<times> player) list \<Rightarrow> (nat \<Rightarrow> real) \<Rightarrow> string + tug_of_war_state" where
  "createTugOfWarGame ps draws =
     (let playerArray = map snd ps
      in if length playerArray mod 2 \<noteq> 0 then Inl ''Tug of War requires an even number of players''
         else (case tug_loop (length playerArray div 2) (shuffled_words draws) 0 playerArray ([], [], [], []) of
                 (states, pwords, redTeam, blueTeam) \<Rightarrow>
                   Inr \<lparr>status = GameWaiting, startTime = None, endTime = None, winner = None,
                        game_players = states,
                        teams = \<lparr>red = redTeam, blue = blueTeam\<rparr>,
                        tug_playerWords = pwords, ropePosition = 0\<rparr>))"

subsection \<open>Countdown\<close>

text \<open>
  \<open>startGame\<close> throws when the room has no game. Otherwise it puts the game into
  \<open>countdown\<close> and sets an interval of 1000 ms whose closure holds \<open>countdown = 3\<close>; the
  model returns that initial value. \<open>countdown_callback\<close> is one run of the interval's
  callback at time \<open>now\<close>, given the closure's \<open>countdown\<close>: it returns the new value, or
  \<open>None\<close> when the callback has cleared the interval. The callback writes to the game
  object captured by \<open>startGame\<close>, which is the one registered under the room code as
  long as no game is created or ended for the room during the countdown.
  \<open>run_countdown n t\<close> lets the interval, set at time \<open>t\<close>, fire \<open>n\<close> times, 1000 ms apart.
\<close>

definition startGameLoop :: "string \<Rightarrow> game_manager \<Rightarrow> game_manager" where
  "startGameLoop rc gm = gm\<lparr>gameLoops := AList.update rc () (gameLoops gm)\<rparr>"

definition startGame :: "int \<Rightarrow> string \<Rightarrow> game_manager \<Rightarrow> string + (int \<times> game_manager)" where
  "startGame now rc gm =
     (case map_of (games gm) rc of
        None \<Rightarrow> Inl (''No game found for room '' @ rc)
      | Some game \<Rightarrow>
          Inr (3, gm\<lparr>games := AList.update rc (set_startTime now (set_status GameCountdown game)) (games gm)\<rparr>))"

definition countdown_callback :: "int \<Rightarrow> string \<Rightarrow> int \<Rightarrow> game_manager \<Rightarrow> int option \<times> game_manager" where
  "countdown_callback now rc countdown gm =
     (let gm1 = gm\<lparr>emitted := emitted gm @ [(now, Countdown rc countdown)]\<rparr>;
          countdown' = countdown - 1
      in if countdown' < 0
         then (None,
               startGameLoop rc
                 (gm1\<lparr>games := (case map_of (games gm1) rc of
                                   None \<Rightarrow> games gm1
                                 | Some game \<Rightarrow> AList.update rc (set_status GamePlaying game) (games gm1))\<rparr>))
         else (Some countdown', gm1))"

fun run_countdown :: "nat \<Rightarrow> int \<Rightarrow> string \<Rightarrow> int option \<Rightarrow> game_manager \<Rightarrow> int option \<times> game_manager" where
  "run_countdown 0 t rc c gm = (c, gm)"
| "run_countdown (Suc n) t rc None gm = (None, gm)"
| "run_countdown (Suc n) t rc (Some c) gm =
     run_countdown n (t + 1000) rc (fst (countdown_callback (t + 1000) rc c gm))
       (snd (countdown_callback (t + 1000) rc c gm))"

subsection \<open>Applying actions and ending the game\<close>

definition processVoiceRacerCommand :: "voice_racer_state \<Rightarrow> game_action \<Rightarrow> voice_racer_state" where
  "processVoiceRacerCommand game a =
     (let matchScore = (case action_matchScore a of None \<Rightarrow> 1 | Some m \<Rightarrow> m)
      in case map_of (playerWords game) (playerId a) of
           None \<Rightarrow> game
         | Some playerWord \<Rightarrow>
             if playerWord = [] then game
             else (let currentSpeed = (case map_of (playerSpeeds game) (playerId a) of None \<Rightarrow> 0 | Some v \<Rightarrow> v);
                       baseBoost = (if currentSpeed < 0.015 then 0.06 else 0.04);
                       boostAmount = baseBoost * matchScore;
                       newSpeed = min (currentSpeed + boostAmount) (0.15 * matchScore)
                   in game\<lparr>playerSpeeds := AList.update (playerId a) newSpeed (playerSpeeds game)\<rparr>))"

definition processTugOfWarCommand :: "tug_of_war_state \<Rightarrow> game_action \<Rightarrow> tug_of_war_state" where
  "processTugOfWarCommand game a =
     (let matchScore = (case action_matchScore a of None \<Rightarrow> 1 | Some m \<Rightarrow> m);
          isRedTeam = playerId a \<in> set (red (teams game));
          isBlueTeam = playerId a \<in> set (blue (teams game))
      in if \<not> isRedTeam \<and> \<not> isBlueTeam then game
         else (let pullForce = 3 * matchScore
               in if isRedTeam
                  then game\<lparr>ropePosition := max (- 100) (ropePosition game - pullForce)\<rparr>
                  else game\<lparr>ropePosition := min 100 (ropePosition game + pullForce)\<rparr>))"

definition processCommand :: "string \<Rightarrow> game_action \<Rightarrow> game_manager \<Rightarrow> game_manager" where
  "processCommand rc a gm =
     (case map_of (games gm) rc of
        None \<Rightarrow> gm
      | Some game \<Rightarrow>
          if game_status_of game \<noteq> GamePlaying then gm
          else gm\<lparr>games := AList.update rc
                 (case game of
                    VoiceRacerGame g \<Rightarrow> VoiceRacerGame (processVoiceRacerCommand g a)
                  | TugOfWarGame g \<Rightarrow> TugOfWarGame (processTugOfWarCommand g a))
                 (games gm)\<rparr>)"

text \<open>
  \<open>checkGameEnd\<close> returns whether the game is over, and the game with \<open>winner\<close> set.
  Reading index 0 of an empty team gives \<open>undefined\<close>, here \<open>None\<close>.
\<close>

definition first_finisher :: "real \<Rightarrow> (string \<times> real) list \<Rightarrow> string option" where
  "first_finisher len ps = map_option fst (find (\<lambda>e. snd e \<ge> len) ps)"

definition checkGameEnd :: "game_state \<Rightarrow> bool \<times> game_state" where
  "checkGameEnd game =
     (case game of
        VoiceRacerGame g \<Rightarrow>
          (case first_finisher (trackLength g) (playerPositions g) of
             Some pid \<Rightarrow> (True, VoiceRacerGame (g\<lparr>winner := Some pid\<rparr>))
           | None \<Rightarrow> (False, game))
      | TugOfWarGame g \<Rightarrow>
          if ropePosition g \<le> - 80
          then (True, TugOfWarGame (g\<lparr>winner := (case red (teams g) of [] \<Rightarrow> None | p # _ \<Rightarrow> Some p)\<rparr>))
          else if ropePosition g \<ge> 80
          then (True, TugOfWarGame (g\<lparr>winner := (case blue (teams g) of [] \<Rightarrow> None | p # _ \<Rightarrow> Some p)\<rparr>))
          else (False, game))"

section \<open>The command matcher\<close>

text \<open>
  A string is the list of its UTF-16 code units, and a character of the model is a
  code unit below 256, that is, a character of ASCII or of the Latin-1 supplement;
  text with other code units is outside the model. On these characters
  \<open>toLowerCase\<close> maps \<open>A\<close> to \<open>Z\<close> (65 to 90) and the accented capitals (192 to 222
  except the multiplication sign 215) to the character 32 places further on; \<open>trim\<close>
  strips tab, line feed, vertical tab, form feed, carriage return, space and the
  no-break space (160) from both ends.
\<close>

definition lower_char :: "char \<Rightarrow> char" where
  "lower_char c =
     (if (65 \<le> (of_char c :: nat) \<and> (of_char c :: nat) \<le> 90) \<or>
         (192 \<le> (of_char c :: nat) \<and> (of_char c :: nat) \<le> 222 \<and> (of_char c :: nat) \<noteq> 215)
      then char_of ((of_char c :: nat) + 32) else c)"

definition toLowerCase :: "string \<Rightarrow> string" where
  "toLowerCase s = map lower_char s"

definition is_space :: "char \<Rightarrow> bool" where
  "is_space c =
     ((9 \<le> (of_char c :: nat) \<and> (of_char c :: nat) \<le> 13) \<or> (of_char c :: nat) = 32 \<or>
      (of_char c :: nat) = 160)"

definition trim :: "string \<Rightarrow> string" where
  "trim s = rev (dropWhile is_space (rev (dropWhile is_space s)))"

fun str_includes :: "string \<Rightarrow> string \<Rightarrow> bool" where
  "str_includes [] t = (t = [])"
| "str_includes (c # s) t = (prefix t (c # s) \<or> str_includes s t)"

definition startsWith :: "string \<Rightarrow> string \<Rightarrow> bool" where
  "startsWith s t = prefix t s"

fun split_space :: "string \<Rightarrow> string list" where
  "split_space [] = [[]]"
| "split_space (c # s) =
     (if c = CHR '' '' then [] # split_space s
      else (case split_space s of [] \<Rightarrow> [[c]] | w # ws \<Rightarrow> (c # w) # ws))"

fun join_space :: "string list \<Rightarrow> string" where
  "join_space [] = []"
| "join_space [w] = w"
| "join_space (w # ws) = w @ '' '' @ join_space ws"

datatype command_type = movement | action | game_specific

record game_command =
  cmd_type :: command_type
  command :: string
  confidence :: real
  rawText :: string
  matchScore :: "real option"

definition PHRASE_MAP :: "(string \<times> string) list" where
  "PHRASE_MAP =
     [(''wifi'', ''pandas hack wifi''),
      (''gravity'', ''squirrels fight gravity''),
      (''homework'', ''llamas eat homework''),
      (''rockets'', ''turtles launch rockets''),
      (''tuxedos'', ''pigeons rock tuxedos''),
      (''waves'', ''cows surf waves''),
      (''math'', ''chickens study math''),
      (''cookies'', ''dolphins bake cookies''),
      (''poetry'', ''monkeys compose poetry''),
      (''sweaters'', ''sharks knit sweaters''),
      (''insurance'', ''beavers sell insurance''),
      (''murals'', ''eagles paint murals''),
      (''ferraris'', ''snails race ferraris''),
      (''yoga'', ''owls teach yoga''),
      (''castles'', ''crabs build castles''),
      (''chess'', ''whales play chess''),
      (''restaurants'', ''bats open restaurants''),
      (''websites'', ''foxes code websites''),
      (''podcasts'', ''bears host podcasts''),
      (''hair'', ''wolves braid hair''),
      (''storms'', ''goats forecast storms''),
      (''revolutions'', ''sheep lead revolutions''),
      (''tacos'', ''horses sell tacos''),
      (''karate'', ''ducks practice karate''),
      (''ninjas'', ''geese become ninjas''),
      (''helicopters'', ''rabbits fly helicopters''),
      (''kingdoms'', ''mice rule kingdoms''),
      (''symphonies'', ''rats compose symphonies''),
      (''mysteries'', ''bees solve mysteries''),
      (''pyramids'', ''ants build pyramids''),
      (''pizza'', ''jellyfish deliver pizza''),
      (''marathons'', ''starfish run marathons''),
      (''crime'', ''seahorses fight crime''),
      (''saxophone'', ''walrus plays saxophone''),
      (''pineapples'', ''seals juggle pineapples''),
      (''bands'', ''otters start bands''),
      (''dance'', ''platypus teaches dance''),
      (''bitcoin'', ''koalas invest bitcoin''),
      (''rainbows'', ''zebras paint rainbows''),
      (''volleyball'', ''giraffes play volleyball''),
      (''novels'', ''hippos author novels''),
      (''bread'', ''rhinos bake bread''),
      (''professionally'', ''elephants moonwalk professionally''),
      (''vacuums'', ''tigers sell vacuums''),
      (''mittens'', ''lions knit mittens''),
      (''ceramics'', ''cheetahs teach ceramics''),
      (''computers'', ''leopards fix computers''),
      (''opera'', ''panthers sing opera''),
      (''origami'', ''jaguars fold origami''),
      (''parties'', ''pumas host parties''),
      (''coffee'', ''badgers brew coffee''),
      (''hearts'', ''raccoons charm hearts''),
      (''screenplays'', ''possums draft screenplays''),
      (''drums'', ''armadillos play drums''),
      (''physics'', ''porcupines teach physics''),
      (''bicycles'', ''hedgehogs race bicycles''),
      (''pools'', ''moles dig pools''),
      (''flowers'', ''wombats sell flowers''),
      (''mainframes'', ''flamingos hack mainframes''),
      (''spotlight'', ''peacocks grab spotlight''),
      (''loudly'', ''parrots gossip loudly''),
      (''nails'', ''toucans paint nails''),
      (''feelings'', ''pelicans catch feelings''),
      (''magic'', ''herons practice magic''),
      (''lawyers'', ''swans become lawyers''),
      (''jazz'', ''geese honk jazz''),
      (''chaos'', ''doves spread chaos''),
      (''cupcakes'', ''vultures sell cupcakes''),
      (''kindergarten'', ''hawks teach kindergarten''),
      (''submarines'', ''falcons race submarines''),
      (''socks'', ''eagles snatch socks''),
      (''backwards'', ''condors fly backwards''),
      (''poorly'', ''ostriches hide poorly''),
      (''war'', ''emus wage war''),
      (''high'', ''kiwis bounce high''),
      (''internet'', ''penguins surf internet''),
      (''portraits'', ''puffins paint portraits''),
      (''fast'', ''sloths run fast''),
      (''jokes'', ''anteaters tell jokes''),
      (''ballads'', ''tapirs sing ballads''),
      (''hard'', ''capybaras chill hard''),
      (''spaceships'', ''beavers build spaceships''),
      (''boats'', ''otters hijack boats''),
      (''mockingly'', ''seals clap mockingly''),
      (''salsa'', ''walruses dance salsa''),
      (''jets'', ''manatees race jets''),
      (''knights'', ''narwhals joust knights''),
      (''gossip'', ''beluga whales gossip''),
      (''masterpieces'', ''orcas paint masterpieces''),
      (''systems'', ''dolphins hack systems''),
      (''fortunes'', ''porpoises tell fortunes''),
      (''disco'', ''whales sing disco''),
      (''blogs'', ''squid publish blogs''),
      (''treasure'', ''octopi grab treasure''),
      (''reality'', ''crabs pinch reality'')]"

text \<open>
  \<open>PHRASE_MAP\<close> is a plain object, so a lookup also finds the properties every object
  inherits. The only inherited names that a lower-cased word can spell are
  \<open>constructor\<close> and \<open>__proto__\<close>; their values are not strings, and the call of
  \<open>toLowerCase\<close> on them throws a \<open>TypeError\<close>.
\<close>

datatype js_lookup = Undefined | Str string | NotAString

definition PHRASE_MAP_get :: "string \<Rightarrow> js_lookup" where
  "PHRASE_MAP_get k =
     (case map_of PHRASE_MAP k of
        Some p \<Rightarrow> Str p
      | None \<Rightarrow> if k = ''constructor'' \<or> k = ''__proto__'' then NotAString else Undefined)"

datatype js_error = TypeError

text \<open>
  The part of the loop body of \<open>extract\<close> under \<open>if (fullPhrase)\<close>: the score of a
  full-phrase or partial-phrase match, if any.
\<close>

definition phrase_score :: "string \<Rightarrow> string \<Rightarrow> string \<Rightarrow> real option" where
  "phrase_score normalizedText wordLower fullPhrase =
     (let phraseLower = toLowerCase fullPhrase;
          phraseWords = split_space phraseLower
      in if normalizedText = phraseLower \<or> str_includes normalizedText phraseLower then Some 2.0
         else if length phraseWords \<ge> 3
         then (let lastTwo = join_space (drop (length phraseWords - 2) phraseWords)
               in if str_includes normalizedText lastTwo then Some 1.5
                  else (let firstTwo = join_space (take 2 phraseWords)
                        in if str_includes normalizedText firstTwo \<and> str_includes normalizedText wordLower
                           then Some 1.5 else None))
         else None)"

definition dynamic_hit :: "string \<Rightarrow> string \<Rightarrow> real \<Rightarrow> real \<Rightarrow> game_command" where
  "dynamic_hit wordLower text conf sc =
     \<lparr>cmd_type = game_specific, command = wordLower, confidence = conf, rawText = text,
      matchScore = Some sc\<rparr>"

text \<open>
  One round of the loop over \<open>dynamicWords\<close>: \<open>Inr (Some c)\<close> when the body returns the
  command \<open>c\<close>, \<open>Inr None\<close> when it falls through to the next word.
\<close>

definition check_word :: "string \<Rightarrow> string \<Rightarrow> real \<Rightarrow> string \<Rightarrow> js_error + game_command option" where
  "check_word normalizedText text conf word =
     (let wordLower = toLowerCase word;
          fullPhrase = PHRASE_MAP_get wordLower;
          trigger =
            (if normalizedText = wordLower \<or> str_includes normalizedText wordLower
             then Some (dynamic_hit wordLower text conf 1.0)
             else if length wordLower \<ge> 3 \<and> length normalizedText \<ge> 2 \<and>
                     startsWith wordLower normalizedText \<and>
                     real (length normalizedText) \<ge> real (length wordLower) * 0.6
             then Some (dynamic_hit wordLower text (conf * 0.9) 0.8)
             else None)
      in case fullPhrase of
           NotAString \<Rightarrow> Inl TypeError
         | Undefined \<Rightarrow> Inr trigger
         | Str p \<Rightarrow>
             if p = [] then Inr trigger
             else (case phrase_score normalizedText wordLower p of
                     Some sc \<Rightarrow> Inr (Some (dynamic_hit wordLower text conf sc))
                   | None \<Rightarrow> Inr trigger))"

fun check_dynamic :: "string \<Rightarrow> string \<Rightarrow> real \<Rightarrow> string list \<Rightarrow> js_error + game_command option" where
  "check_dynamic normalizedText text conf [] = Inr None"
| "check_dynamic normalizedText text conf (word # ws) =
     (case check_word normalizedText text conf word of
        Inl e \<Rightarrow> Inl e
      | Inr (Some c) \<Rightarrow> Inr (Some c)
      | Inr None \<Rightarrow> check_dynamic normalizedText text conf ws)"

text \<open>
  The fixed vocabulary, in the key order of the object literals. \<open>word_test v s\<close> is
  the regular expression \<^verbatim>\<open>\bv\b\<close> tested on \<open>s\<close> for a variant \<open>v\<close> made of letters:
  an occurrence of \<open>v\<close> with no word character (letter, digit, underscore) right
  before or right after it.
\<close>

definition movement_commands :: "(string \<times> string list) list" where
  "movement_commands =
     [(''go'', [''go'', ''move'', ''forward'', ''advance'']),
      (''left'', [''left'', ''turn left'', ''go left'']),
      (''right'', [''right'', ''turn right'', ''go right'']),
      (''stop'', [''stop'', ''halt'', ''freeze'']),
      (''back'', [''back'', ''reverse'', ''backward''])]"

definition action_commands :: "(string \<times> string list) list" where
  "action_commands =
     [(''jump'', [''jump'', ''hop'', ''leap'']),
      (''fire'', [''fire'', ''shoot'', ''bang'']),
      (''draw'', [''draw'']),
      (''duck'', [''duck'', ''crouch'', ''down''])]"

definition gameSpecific_commands :: "(string \<times> string list) list" where
  "gameSpecific_commands =
     [(''boost'', [''boost'', ''turbo'', ''speed'']),
      (''brake'', [''brake'', ''slow'']),
      (''ready'', [''ready''])]"

definition is_word_char :: "char \<Rightarrow> bool" where
  "is_word_char c =
     ((48 \<le> (of_char c :: nat) \<and> (of_char c :: nat) \<le> 57) \<or>
      (65 \<le> (of_char c :: nat) \<and> (of_char c :: nat) \<le> 90) \<or>
      (97 \<le> (of_char c :: nat) \<and> (of_char c :: nat) \<le> 122) \<or> (of_char c :: nat) = 95)"

fun word_scan :: "bool \<Rightarrow> string \<Rightarrow> string \<Rightarrow> bool" where
  "word_scan after_word v [] = False"
| "word_scan after_word v (c # s) =
     ((\<not> after_word \<and> prefix v (c # s) \<and>
        (case drop (length v) (c # s) of [] \<Rightarrow> True | d # _ \<Rightarrow> \<not> is_word_char d))
      \<or> word_scan (is_word_char c) v s)"

definition word_test :: "string \<Rightarrow> string \<Rightarrow> bool" where
  "word_test v s = word_scan False v s"

definition has_space :: "string \<Rightarrow> bool" where
  "has_space v = str_includes v '' ''"

definition matchesAnyVariant :: "string \<Rightarrow> string list \<Rightarrow> bool" where
  "matchesAnyVariant t variants =
     (list_ex (\<lambda>v. t = v) variants
      \<or> list_ex (\<lambda>v. if has_space v then str_includes t v
                       else word_test v t \<and>
                            \<not> list_ex (\<lambda>u. has_space u \<and> str_includes u v \<and> str_includes t u) variants)
           variants
      \<or> (length (split_space t) > 1 \<and>
          list_ex (\<lambda>v. \<not> has_space v \<and> list_all (\<lambda>w. w = v) (split_space t)) variants))"

definition vocabulary_match ::
  "command_type \<Rightarrow> (string \<times> string list) list \<Rightarrow> string \<Rightarrow> string \<Rightarrow> real \<Rightarrow> game_command option" where
  "vocabulary_match ty table normalizedText text conf =
     (case find (\<lambda>e. matchesAnyVariant normalizedText (snd e)) table of
        None \<Rightarrow> None
      | Some e \<Rightarrow> Some \<lparr>cmd_type = ty, command = fst e, confidence = conf, rawText = text,
                        matchScore = None\<rparr>)"

definition fixed_vocabulary :: "string \<Rightarrow> string \<Rightarrow> real \<Rightarrow> game_command option" where
  "fixed_vocabulary normalizedText text conf =
     (case vocabulary_match movement movement_commands normalizedText text conf of
        Some c \<Rightarrow> Some c
      | None \<Rightarrow>
          (case vocabulary_match action action_commands normalizedText text conf of
             Some c \<Rightarrow> Some c
           | None \<Rightarrow> vocabulary_match game_specific gameSpecific_commands normalizedText text conf))"

definition extract_command :: "string \<Rightarrow> real \<Rightarrow> string list \<Rightarrow> js_error + game_command option" where
  "extract_command text conf dynamicWords =
     (let normalizedText = trim (toLowerCase text)
      in case check_dynamic normalizedText text conf dynamicWords of
           Inl e \<Rightarrow> Inl e
         | Inr (Some c) \<Rightarrow> Inr (Some c)
         | Inr None \<Rightarrow> Inr (fixed_vocabulary normalizedText text conf))"

subsection \<open>The tiers in the words of the specification\<close>

text \<open>
  The tiers of the matcher as the specification words them, for a transcript \<open>t\<close>, a
  trigger word \<open>w\<close> and its phrase \<open>p\<close>: the score of the first tier that hits, and the
  factor applied to the confidence.
\<close>

definition spec_tier :: "string \<Rightarrow> string \<Rightarrow> string \<Rightarrow> (real \<times> real) option" where
  "spec_tier t w p =
     (if t = p \<or> str_includes t p then Some (2, 1)
      else if length (split_space p) \<ge> 3 \<and>
              (str_includes t (join_space (drop (length (split_space p) - 2) (split_space p))) \<or>
               (str_includes t (join_space (take 2 (split_space p))) \<and> str_includes t w))
      then Some (3 / 2, 1)
      else if t = w \<or> str_includes t w then Some (1, 1)
      else if length w \<ge> 3 \<and> length t \<ge> 2 \<and> prefix t w \<and> 10 * length t \<ge> 6 * length w
      then Some (4 / 5, 9 / 10)
      else None)"

definition spec_match :: "string \<Rightarrow> string \<Rightarrow> string \<Rightarrow> string \<Rightarrow> real \<Rightarrow> game_command option" where
  "spec_match t w p text conf =
     (case spec_tier t w p of
        None \<Rightarrow> None
      | Some (sc, f) \<Rightarrow>
          Some \<lparr>cmd_type = game_specific, command = w, confidence = conf * f, rawText = text,
                matchScore = Some sc\<rparr>)"

section \<open>Example states\<close>

text \<open>
  Concrete registries and sessions for the examples below. \<open>demo_lobby\<close> is a room
  \<open>AAAA\<close> of host socket \<open>h1\<close> with one player on socket \<open>s1\<close>. In \<open>demo_host_away\<close> the
  host socket has also joined its own room as a player and has then left at time
  1000: this is how a registry with \<open>hostDisconnectedAt\<close> set comes about.
\<close>

definition demo_ops :: "rm_op list" where
  "demo_ops = [CreateRoom 0 [0, 0, 0, 0] ''h1'']"

definition demo_draws :: "real list" where
  "demo_draws = [0, 0, 0, 0, 1/2, 1/2, 1/2, 1/2]"

definition demo_player :: player where
  "demo_player = \<lparr>player_id = ''p1'', player_name = ''Ann'', roomCode = ''AAAA'', socketId = ''s1'', connected = True\<rparr>"

definition demo_host_player :: player where
  "demo_host_player = \<lparr>player_id = ''p0'', player_name = ''Host'', roomCode = ''AAAA'', socketId = ''h1'', connected = True\<rparr>"

definition demo_lobby :: room_manager where
  "demo_lobby = rm_run [CreateRoom 0 [0, 0, 0, 0] ''h1'', JoinRoom ''AAAA'' demo_player] new_manager"

definition demo_host_away :: room_manager where
  "demo_host_away =
     rm_run [CreateRoom 0 [0, 0, 0, 0] ''h1'', JoinRoom ''AAAA'' demo_host_player,
             JoinRoom ''AAAA'' demo_player, LeaveRoom 1000 ''h1''] new_manager"

definition demo_sweeps :: "int list" where
  "demo_sweeps = [2000, 4000, 6000, 8000, 10000, 12000, 14000, 16000, 18000, 20000,
                  22000, 24000, 26000, 28000, 30000, 32000, 34000]"

definition demo_tug :: tug_of_war_state where
  "demo_tug =
     \<lparr>status = GamePlaying, startTime = Some 0, endTime = None, winner = None,
      game_players =
        [(''p1'', \<lparr>pgs_id = ''p1'', pgs_name = ''Ann'', score = 0, isAlive = True,
                   position = Some \<lparr>point_x = 25, point_y = 50\<rparr>\<rparr>),
         (''p2'', \<lparr>pgs_id = ''p2'', pgs_name = ''Bob'', score = 0, isAlive = True,
                   position = Some \<lparr>point_x = 75, point_y = 50\<rparr>\<rparr>)],
      teams = \<lparr>red = [''p1''], blue = [''p2'']\<rparr>,
      tug_playerWords = [(''p1'', ''wifi''), (''p2'', ''gravity'')],
      ropePosition = 0\<rparr>"

definition demo_racer :: voice_racer_state where
  "demo_racer =
     \<lparr>status = GamePlaying, startTime = Some 0, endTime = None, winner = None,
      game_players =
        [(''p1'', \<lparr>pgs_id = ''p1'', pgs_name = ''Ann'', score = 0, isAlive = True,
                   position = Some \<lparr>point_x = 0, point_y = 50\<rparr>\<rparr>)],
      trackLength = 100,
      playerPositions = [(''p1'', 0)],
      playerSpeeds = [(''p1'', 0)],
      playerWords = [(''p1'', ''wifi'')]\<rparr>"

definition demo_games :: "game_state \<Rightarrow> game_manager" where
  "demo_games game = \<lparr>games = [(''AAAA'', game)], gameLoops = [], emitted = []\<rparr>"

definition pull :: "string \<Rightarrow> real \<Rightarrow> game_action" where
  "pull pid m = \<lparr>playerId = pid, action_command = ''wifi'', action_timestamp = 0, action_matchScore = Some m\<rparr>"

definition demo_waiting :: game_manager where
  "demo_waiting = demo_games (TugOfWarGame (demo_tug\<lparr>status := GameWaiting, startTime := None\<rparr>))"

definition demo_counting :: game_manager where
  "demo_counting = demo_games (TugOfWarGame (demo_tug\<lparr>status := GameCountdown, startTime := Some 0\<rparr>))"

definition demo_at_one :: game_manager where
  "demo_at_one =
     \<lparr>games = [(''AAAA'', TugOfWarGame (demo_tug\<lparr>status := GameCountdown, startTime := Some 0\<rparr>))],
      gameLoops = [],
      emitted = [(1000, Countdown ''AAAA'' 3), (2000, Countdown ''AAAA'' 2), (3000, Countdown ''AAAA'' 1)]\<rparr>"

section \<open>Properties of the room registry\<close>

subsection \<open>Room codes\<close>

lemma random_index_less: "unit_draw r \<Longrightarrow> random_index r < 26"
proof -
  assume "unit_draw r"
  then have "0 \<le> r * 26" and "r * 26 < 26" by (simp_all add: unit_draw_def)
  then have "\<lfloor>r * 26\<rfloor> < 26" by (simp add: floor_less_iff)
  then have "nat \<lfloor>r * 26\<rfloor> < 26" by linarith
  then show ?thesis by (simp add: random_index_def characters_def)
qed

lemma length_characters: "length characters = 26"
  by (simp add: characters_def)

lemma charAt_characters:
  "i < 26 \<Longrightarrow> \<exists>ch. charAt characters i = [ch] \<and> ch \<in> set characters"
  by (simp add: charAt_def length_characters)

lemma generateRoomCode_Some:
  "generateRoomCode rs draws = Some (c, rest) \<Longrightarrow> list_all unit_draw draws \<Longrightarrow>
     valid_code c \<and> map_of rs c = None"
proof (induction rs draws rule: generateRoomCode.induct)
  case (1 rs r1 r2 r3 r4 rest')
  let ?c = "charAt characters (random_index r1) @ charAt characters (random_index r2) @
              charAt characters (random_index r3) @ charAt characters (random_index r4)"
  from "1.prems"(2) have u: "unit_draw r1" "unit_draw r2" "unit_draw r3" "unit_draw r4" "list_all unit_draw rest'"
    by simp_all
  obtain a b c' d where abcd: "charAt characters (random_index r1) = [a]" "a \<in> set characters"
     "charAt characters (random_index r2) = [b]" "b \<in> set characters"
     "charAt characters (random_index r3) = [c']" "c' \<in> set characters"
     "charAt characters (random_index r4) = [d]" "d \<in> set characters"
    using charAt_characters[OF random_index_less[OF u(1)]] charAt_characters[OF random_index_less[OF u(2)]]
      charAt_characters[OF random_index_less[OF u(3)]] charAt_characters[OF random_index_less[OF u(4)]]
    by blast
  have vc: "valid_code ?c" using abcd by (simp add: valid_code_def)
  show ?case
  proof (cases "map_of rs ?c \<noteq> None")
    case True
    then have "generateRoomCode rs rest' = Some (c, rest)" using "1.prems"(1) by (simp add: Let_def)
    then show ?thesis using "1.IH"[OF refl True _ u(5)] by simp
  next
    case False
    then have "c = ?c" using "1.prems"(1) by (simp add: Let_def)
    then show ?thesis using vc False by simp
  qed
qed simp_all

lemma set_update_subset: "set (AList.update k v al) \<subseteq> insert (k, v) (set al)"
  by (induction al) auto

lemma list_all_update:
  "list_all P al \<Longrightarrow> P (k, v) \<Longrightarrow> list_all P (AList.update k v al)"
  using set_update_subset[of k v al] by (auto simp: list_all_iff)

lemma list_all_delete: "list_all P al \<Longrightarrow> list_all P (AList.delete k al)"
  by (auto simp: list_all_iff AList.delete_eq)

lemma registry_ok_update:
  "registry_ok s \<Longrightarrow> code r = rc \<Longrightarrow> valid_code rc \<Longrightarrow>
     registry_ok (s\<lparr>rooms := AList.update rc r (rooms s)\<rparr>)"
  by (simp add: registry_ok_def distinct_update list_all_update)

lemma registry_ok_p2r: "registry_ok (s\<lparr>playerToRoom := m\<rparr>) = registry_ok s"
  by (simp add: registry_ok_def)

lemma registry_ok_lookup:
  "registry_ok s \<Longrightarrow> map_of (rooms s) rc = Some r \<Longrightarrow> code r = rc \<and> valid_code rc"
  by (auto simp: registry_ok_def list_all_iff dest!: map_of_SomeD)

lemma registry_ok_modify:
  "registry_ok s \<Longrightarrow> map_of (rooms s) rc = Some r \<Longrightarrow> code r' = code r \<Longrightarrow>
     registry_ok (s\<lparr>rooms := AList.update rc r' (rooms s), playerToRoom := m\<rparr>)"
  using registry_ok_lookup[of s rc r] registry_ok_update[of s r' rc]
  by (simp add: registry_ok_def)

lemma registry_ok_modify':
  "registry_ok s \<Longrightarrow> map_of (rooms s) rc = Some r \<Longrightarrow> code r' = code r \<Longrightarrow>
     registry_ok (s\<lparr>rooms := AList.update rc r' (rooms s)\<rparr>)"
  using registry_ok_lookup[of s rc r] registry_ok_update[of s r' rc]
  by (simp add: registry_ok_def)

lemma registry_ok_createRoom:
  "registry_ok s \<Longrightarrow> list_all unit_draw draws \<Longrightarrow> createRoom now draws h s = Some (c, rest, s') \<Longrightarrow>
     registry_ok s'"
  by (auto simp: createRoom_def split: option.splits dest!: generateRoomCode_Some intro!: registry_ok_update)

lemma registry_ok_cleanup_loop:
  "registry_ok s \<Longrightarrow> registry_ok (cleanup_loop now xs s)"
proof (induction xs arbitrary: s)
  case Nil
  then show ?case by simp
next
  case (Cons x xs)
  obtain c r where x: "x = (c, r)" by (cases x)
  have "registry_ok (s\<lparr>rooms := AList.delete c (rooms s), playerToRoom := release_players (players r) (playerToRoom s)\<rparr>)"
    using Cons.prems by (simp add: registry_ok_def distinct_delete list_all_delete)
  then show ?case using Cons x by simp
qed

lemma registry_ok_step: "registry_ok s \<Longrightarrow> op_draws_ok x \<Longrightarrow> registry_ok (rm_step x s)"
proof (cases x)
  case (CreateRoom now draws h)
  assume "registry_ok s" "op_draws_ok x"
  then show ?thesis using CreateRoom registry_ok_createRoom[of s draws now h]
    by (auto split: option.splits)
next
  case (CleanupOldRooms now)
  assume "registry_ok s"
  then show ?thesis using CleanupOldRooms by (simp add: cleanupOldRooms_def registry_ok_cleanup_loop)
qed (auto simp: joinRoom_def leaveRoom_def startGame_room_def endGame_room_def resetRoom_def
      reconnectHost_def reconnectPlayer_def removePlayer_def Let_def
      split: option.splits intro!: registry_ok_modify registry_ok_modify')

lemma registry_ok_run:
  "registry_ok s \<Longrightarrow> list_all op_draws_ok ops \<Longrightarrow> registry_ok (rm_run ops s)"
  unfolding rm_run_def by (induction ops arbitrary: s) (simp_all add: registry_ok_step)

lemma createRoom_fresh:
  "createRoom now draws h s = Some (c, rest, s') \<Longrightarrow> list_all unit_draw draws \<Longrightarrow>
     valid_code c \<and> map_of (rooms s) c = None \<and>
     (\<exists>r. map_of (rooms s') c = Some r \<and> code r = c \<and> hostSocketId r = h)"
  by (auto simp: createRoom_def update_conv' split: option.splits dest!: generateRoomCode_Some)

text \<open>
  Claim C9. Every code that \<open>createRoom\<close> produces is four letters of \<open>A\<close> to \<open>Z\<close>, and at
  every moment no two rooms of the registry share a code. The moments are the
  registries reached from the empty one by any list of \<open>RoomManager\<close> calls whose
  random draws lie in \<open>[0, 1)\<close>. In each of them the codes of the registered rooms are
  pairwise different and valid; and a further \<open>createRoom\<close> that returns yields a valid
  code that no registered room had (the rejection sampling), under which the new room
  is then registered.
\<close>

theorem room_codes_unique:
  assumes "list_all op_draws_ok ops"
  shows "distinct (map (\<lambda>e. code (snd e)) (rooms (rm_run ops new_manager))) \<and>
         list_all (\<lambda>e. valid_code (code (snd e))) (rooms (rm_run ops new_manager)) \<and>
         (\<forall>now draws h c rest s'.
            list_all unit_draw draws \<and>
            createRoom now draws h (rm_run ops new_manager) = Some (c, rest, s') \<longrightarrow>
              valid_code c \<and> map_of (rooms (rm_run ops new_manager)) c = None \<and>
              (\<exists>r. map_of (rooms s') c = Some r \<and> code r = c))"
proof -
  let ?s = "rm_run ops new_manager"
  have ok: "registry_ok ?s"
    using assms by (intro registry_ok_run) (simp_all add: registry_ok_def new_manager_def)
  then have eq: "map (\<lambda>e. code (snd e)) (rooms ?s) = map fst (rooms ?s)"
    by (auto simp: registry_ok_def list_all_iff)
  have d: "distinct (map (\<lambda>e. code (snd e)) (rooms ?s))"
    using ok unfolding eq by (simp add: registry_ok_def)
  have v: "list_all (\<lambda>e. valid_code (code (snd e))) (rooms ?s)"
    using ok by (auto simp: registry_ok_def list_all_iff)
  show ?thesis using d v createRoom_fresh by blast
qed

lemma demo_run: "map fst (rooms (rm_run demo_ops new_manager)) = [''AAAA'']"
  by (simp add: demo_ops_def rm_run_def new_manager_def createRoom_def random_index_def
      characters_def charAt_def)

lemma demo_create:
  "map_option fst (createRoom 5 demo_draws ''h2'' (rm_run demo_ops new_manager)) = Some ''NNNN''"
  by (simp add: demo_ops_def demo_draws_def rm_run_def new_manager_def createRoom_def random_index_def
      characters_def charAt_def)

text \<open>
  The theorem at a registry holding room \<open>AAAA\<close>: a creation whose first four draws
  spell \<open>AAAA\<close> again is rejected once and returns \<open>NNNN\<close>.
\<close>

theorem room_codes_unique_witness:
  "list_all op_draws_ok demo_ops \<and> list_all unit_draw demo_draws \<and>
   map fst (rooms (rm_run demo_ops new_manager)) = [''AAAA''] \<and>
   map_option fst (createRoom 5 demo_draws ''h2'' (rm_run demo_ops new_manager)) = Some ''NNNN'' \<and>
   distinct (map (\<lambda>e. code (snd e)) (rooms (rm_run demo_ops new_manager))) \<and>
   list_all (\<lambda>e. valid_code (code (snd e))) (rooms (rm_run demo_ops new_manager)) \<and>
   valid_code ''NNNN'' \<and> map_of (rooms (rm_run demo_ops new_manager)) ''NNNN'' = None"
proof -
  have ok: "list_all op_draws_ok demo_ops" by (simp add: demo_ops_def unit_draw_def)
  have dr: "list_all unit_draw demo_draws" by (simp add: demo_draws_def unit_draw_def)
  obtain rest s' where cr: "createRoom 5 demo_draws ''h2'' (rm_run demo_ops new_manager) = Some (''NNNN'', rest, s')"
    using demo_create by (cases "createRoom 5 demo_draws ''h2'' (rm_run demo_ops new_manager)") auto
  have "valid_code ''NNNN'' \<and> map_of (rooms (rm_run demo_ops new_manager)) ''NNNN'' = None"
    using room_codes_unique[OF ok] dr cr by blast
  then show ?thesis using ok dr room_codes_unique[OF ok] demo_run demo_create by simp
qed

subsection \<open>The example registries\<close>

lemma demo_lobby_eq:
  "demo_lobby =
     \<lparr>rooms = [(''AAAA'', \<lparr>code = ''AAAA'', hostSocketId = ''h1'', players = [(''p1'', demo_player)],
                 gameState = RoomWaiting, createdAt = 0, hostDisconnectedAt = None,
                 readyPlayers = Some []\<rparr>)],
      playerToRoom = [(''s1'', ''AAAA'')]\<rparr>"
  by (simp add: demo_lobby_def rm_run_def new_manager_def createRoom_def random_index_def
      characters_def charAt_def joinRoom_def demo_player_def)

lemma demo_host_away_eq:
  "demo_host_away =
     \<lparr>rooms = [(''AAAA'', \<lparr>code = ''AAAA'', hostSocketId = ''h1'',
                 players = [(''p0'', demo_host_player\<lparr>connected := False\<rparr>), (''p1'', demo_player)],
                 gameState = RoomWaiting, createdAt = 0, hostDisconnectedAt = Some 1000,
                 readyPlayers = Some []\<rparr>)],
      playerToRoom = [(''s1'', ''AAAA'')]\<rparr>"
  by (simp add: demo_host_away_def rm_run_def new_manager_def createRoom_def random_index_def
      characters_def charAt_def joinRoom_def leaveRoom_def demo_player_def demo_host_player_def Let_def)

subsection \<open>reconnectHost\<close>

text \<open>
  Claim C5. \<open>reconnectHost\<close> returns none exactly when no room has the code. For a
  registered room it returns the room with the host socket rebound and
  \<open>hostDisconnectedAt\<close> cleared; code, players (entries and their \<open>connected\<close> flags),
  status, creation time and ready states are the old ones, the other rooms, the order
  of the registry and \<open>playerToRoom\<close> are untouched. The function reads no clock, so
  the age of \<open>hostDisconnectedAt\<close> cannot make it fail.
\<close>

theorem reconnectHost_rebinds_host_only:
  "(fst (reconnectHost rc n s) = None) = (map_of (rooms s) rc = None) \<and>
   (\<forall>r. map_of (rooms s) rc = Some r \<longrightarrow>
      (\<exists>r'. fst (reconnectHost rc n s) = Some r' \<and>
            map_of (rooms (snd (reconnectHost rc n s))) rc = Some r' \<and>
            hostSocketId r' = n \<and> hostDisconnectedAt r' = None \<and>
            code r' = code r \<and> players r' = players r \<and> gameState r' = gameState r \<and>
            createdAt r' = createdAt r \<and> readyPlayers r' = readyPlayers r) \<and>
      map fst (rooms (snd (reconnectHost rc n s))) = map fst (rooms s) \<and>
      (\<forall>rc'. rc' \<noteq> rc \<longrightarrow> map_of (rooms (snd (reconnectHost rc n s))) rc' = map_of (rooms s) rc') \<and>
      playerToRoom (snd (reconnectHost rc n s)) = playerToRoom s)"
proof -
  have keys: "map fst (AList.update rc v (rooms s)) = map fst (rooms s)"
    if "map_of (rooms s) rc = Some r" for v r
    using that by (simp add: update_keys map_of_eq_None_iff[symmetric] del: map_of_eq_None_iff)
  show ?thesis
    by (auto simp: reconnectHost_def Let_def update_conv' keys split: option.splits)
qed

text \<open>
  The theorem at a room whose host has been marked disconnected at time 1000, and at a
  code that is not registered.
\<close>

theorem reconnectHost_rebinds_host_only_witness:
  "map_of (rooms demo_host_away) ''AAAA'' = Some (snd (hd (rooms demo_host_away))) \<and>
   hostDisconnectedAt (snd (hd (rooms demo_host_away))) = Some 1000 \<and>
   (\<exists>r'. fst (reconnectHost ''AAAA'' ''h2'' demo_host_away) = Some r' \<and>
         map_of (rooms (snd (reconnectHost ''AAAA'' ''h2'' demo_host_away))) ''AAAA'' = Some r' \<and>
         hostSocketId r' = ''h2'' \<and> hostDisconnectedAt r' = None \<and>
         code r' = ''AAAA'' \<and> gameState r' = RoomWaiting \<and>
         players r' = [(''p0'', demo_host_player\<lparr>connected := False\<rparr>), (''p1'', demo_player)]) \<and>
   playerToRoom (snd (reconnectHost ''AAAA'' ''h2'' demo_host_away)) = [(''s1'', ''AAAA'')] \<and>
   fst (reconnectHost ''ZZZZ'' ''h2'' demo_host_away) = None"
proof -
  have m: "map_of (rooms demo_host_away) ''AAAA'' = Some (snd (hd (rooms demo_host_away)))"
    by (simp add: demo_host_away_eq)
  have z: "map_of (rooms demo_host_away) ''ZZZZ'' = None"
    by (simp add: demo_host_away_eq)
  have f: "code (snd (hd (rooms demo_host_away))) = ''AAAA''"
     "gameState (snd (hd (rooms demo_host_away))) = RoomWaiting"
     "players (snd (hd (rooms demo_host_away))) = [(''p0'', demo_host_player\<lparr>connected := False\<rparr>), (''p1'', demo_player)]"
     "hostDisconnectedAt (snd (hd (rooms demo_host_away))) = Some 1000"
     "playerToRoom demo_host_away = [(''s1'', ''AAAA'')]"
    by (simp_all add: demo_host_away_eq)
  show ?thesis
    using reconnectHost_rebinds_host_only[of "''AAAA''" "''h2''" demo_host_away]
      reconnectHost_rebinds_host_only[of "''ZZZZ''" "''h2''" demo_host_away] m z f
    by auto
qed

subsection \<open>leaveRoom\<close>

lemma leaveRoom_unbound: "map_of (playerToRoom s) sid = None \<Longrightarrow> leaveRoom now sid s = (None, s)"
  by (simp add: leaveRoom_def)

lemma createRoom_playerToRoom:
  "createRoom now draws h s = Some (c, rest, s') \<Longrightarrow> playerToRoom s' = playerToRoom s"
  by (auto simp: createRoom_def split: option.splits)

text \<open>
  Claim C1, evaluated where it fails. \<open>createRoom\<close> stores the host socket in the room
  only, never in \<open>playerToRoom\<close>, and \<open>leaveRoom\<close> starts with a lookup in
  \<open>playerToRoom\<close>. In the registry made by one \<open>createRoom\<close> for host socket \<open>h1\<close> and
  one \<open>joinRoom\<close>, \<open>leaveRoom\<close> of \<open>h1\<close> therefore returns none and changes nothing:
  \<open>hostDisconnectedAt\<close> stays unset and no host-left result is reported.
\<close>

theorem leaveRoom_host_not_recorded:
  "map_option hostSocketId (map_of (rooms demo_lobby) ''AAAA'') = Some ''h1'' \<and>
   leaveRoom 1000 ''h1'' demo_lobby = (None, demo_lobby) \<and>
   map_option hostDisconnectedAt (map_of (rooms (snd (leaveRoom 1000 ''h1'' demo_lobby))) ''AAAA'') = Some None"
  by (simp add: demo_lobby_eq leaveRoom_def)

lemma mark_disconnected_keys: "map fst (snd (mark_disconnected sid ps)) = map fst ps"
  by (induction ps) auto

lemma mark_disconnected_found:
  "fst (mark_disconnected sid ps) = Some i \<Longrightarrow>
     \<exists>p. (i, p) \<in> set ps \<and> socketId p = sid \<and> (i, p\<lparr>connected := False\<rparr>) \<in> set (snd (mark_disconnected sid ps))"
  by (induction ps) (auto split: if_splits)

lemma mark_disconnected_none:
  "fst (mark_disconnected sid ps) = None \<Longrightarrow> list_all (\<lambda>e. socketId (snd e) \<noteq> sid) ps"
  by (induction ps) (auto split: if_splits)

lemma leaveRoom_player_marked:
  assumes "map_of (playerToRoom s) sid = Some rc" and "rc \<noteq> []"
    and "map_of (rooms s) rc = Some r" and "hostSocketId r \<noteq> sid"
    and "fst (mark_disconnected sid (players r)) = Some i" and "i \<noteq> []"
  shows "fst (leaveRoom now sid s) = Some (LeaveResult rc i None) \<and>
         (\<exists>r' p. map_of (rooms (snd (leaveRoom now sid s))) rc = Some r' \<and>
            map fst (players r') = map fst (players r) \<and>
            (i, p) \<in> set (players r) \<and> socketId p = sid \<and>
            (i, p\<lparr>connected := False\<rparr>) \<in> set (players r') \<and>
            hostDisconnectedAt r' = hostDisconnectedAt r) \<and>
         map_of (playerToRoom (snd (leaveRoom now sid s))) sid = None"
proof -
  let ?r' = "r\<lparr>players := snd (mark_disconnected sid (players r))\<rparr>"
  have l: "leaveRoom now sid s =
      (Some (LeaveResult rc i None),
       s\<lparr>rooms := AList.update rc ?r' (rooms s), playerToRoom := AList.delete sid (playerToRoom s)\<rparr>)"
    using assms by (simp add: leaveRoom_def Let_def)
  obtain p where p: "(i, p) \<in> set (players r)" "socketId p = sid"
      "(i, p\<lparr>connected := False\<rparr>) \<in> set (players ?r')"
    using mark_disconnected_found[OF assms(5)] by auto
  have "map_of (rooms (snd (leaveRoom now sid s))) rc = Some ?r'" unfolding l by (simp add: update_conv')
  moreover have "map fst (players ?r') = map fst (players r)" by (simp add: mark_disconnected_keys)
  moreover have "map_of (playerToRoom (snd (leaveRoom now sid s))) sid = None"
    unfolding l by (simp add: delete_conv')
  ultimately show ?thesis using l p by auto
qed

subsection \<open>The hourly sweep\<close>

text \<open>
  Claim C2, evaluated where it fails. In the same registry the host socket leaves at
  time 1000 and is never rebound. The next hourly sweep, at time 3600000, keeps the
  room and the binding of its player's socket, because \<open>leaveRoom\<close> recorded no
  \<open>hostDisconnectedAt\<close> for the sweep to compare with.
\<close>

theorem host_left_room_survives_sweep:
  "map fst (rooms (cleanupOldRooms 3600000 (snd (leaveRoom 1000 ''h1'' demo_lobby)))) = [''AAAA''] \<and>
   map_of (playerToRoom (cleanupOldRooms 3600000 (snd (leaveRoom 1000 ''h1'' demo_lobby)))) ''s1'' = Some ''AAAA''"
  by (simp add: demo_lobby_eq leaveRoom_def cleanupOldRooms_def room_expired_def)

lemma release_players_None:
  "map_of m k = None \<Longrightarrow> map_of (release_players ps m) k = None"
  unfolding release_players_def by (induction ps arbitrary: m) (simp_all add: delete_conv')

lemma release_players_released:
  "(i, p) \<in> set ps \<Longrightarrow> map_of (release_players ps m) (socketId p) = None"
  unfolding release_players_def
proof (induction ps arbitrary: m)
  case Nil
  then show ?case by simp
next
  case (Cons a ps)
  show ?case
  proof (cases "a = (i, p)")
    case True
    have "map_of (AList.delete (socketId p) m) (socketId p) = None" by (simp add: delete_conv')
    then show ?thesis using True release_players_None[unfolded release_players_def] by simp
  next
    case False
    then show ?thesis using Cons by simp
  qed
qed

lemma cleanup_loop_absent:
  "map_of (rooms s) c = None \<Longrightarrow> map_of (rooms (cleanup_loop now xs s)) c = None"
  by (induction xs arbitrary: s) (auto simp: delete_conv')

lemma cleanup_loop_unbound:
  "map_of (playerToRoom s) k = None \<Longrightarrow> map_of (playerToRoom (cleanup_loop now xs s)) k = None"
  by (induction xs arbitrary: s) (auto simp: release_players_None)

lemma cleanup_loop_removes:
  "(c, r) \<in> set xs \<Longrightarrow> room_expired now r \<Longrightarrow>
     map_of (rooms (cleanup_loop now xs s)) c = None \<and>
     list_all (\<lambda>e. map_of (playerToRoom (cleanup_loop now xs s)) (socketId (snd e)) = None) (players r)"
proof (induction xs arbitrary: s)
  case Nil
  then show ?case by simp
next
  case (Cons a xs)
  show ?case
  proof (cases "a = (c, r)")
    case True
    let ?s = "s\<lparr>rooms := AList.delete c (rooms s), playerToRoom := release_players (players r) (playerToRoom s)\<rparr>"
    have 1: "map_of (rooms ?s) c = None" by (simp add: delete_conv')
    have 2: "map_of (playerToRoom ?s) (socketId (snd e)) = None" if "e \<in> set (players r)" for e
      using release_players_released[of "fst e" "snd e"] that by simp
    have "cleanup_loop now (a # xs) s = cleanup_loop now xs ?s" using True Cons.prems(2) by simp
    then show ?thesis using cleanup_loop_absent[OF 1] cleanup_loop_unbound[OF 2]
      by (simp add: list_all_iff)
  next
    case False
    then have "(c, r) \<in> set xs" using Cons.prems(1) by simp
    then show ?thesis using Cons.IH[OF _ Cons.prems(2)] by (cases a) simp
  qed
qed

lemma cleanup_removes_expired:
  assumes "(c, r) \<in> set (rooms s)" and "hostDisconnectedAt r = Some t" and "t < now - 30000"
  shows "map_of (rooms (cleanupOldRooms now s)) c = None \<and>
         list_all (\<lambda>e. map_of (playerToRoom (cleanupOldRooms now s)) (socketId (snd e)) = None) (players r)"
proof -
  have "room_expired now r" using assms(2,3) by (simp add: room_expired_def)
  then show ?thesis unfolding cleanupOldRooms_def using cleanup_loop_removes[OF assms(1)] by simp
qed

lemma cleanup_after_marked_host:
  "cleanupOldRooms 3600000 demo_host_away = new_manager"
  by (simp add: demo_host_away_eq cleanupOldRooms_def room_expired_def release_players_def
      demo_player_def demo_host_player_def new_manager_def)

subsection \<open>The host-disconnect notifier\<close>

lemma notify_loop_filter:
  "notify_loop now xs acc = acc @ map fst (filter (\<lambda>e. notify_due now (snd e)) xs)"
  by (induction xs arbitrary: acc) auto

lemma getRooms_filter:
  "getRoomsToNotifyHostDisconnect now s = map fst (filter (\<lambda>e. notify_due now (snd e)) (rooms s))"
  by (simp add: getRoomsToNotifyHostDisconnect_def notify_loop_filter)

lemma filter_key_distinct:
  "distinct (map fst xs) \<Longrightarrow> map_of xs c = Some r \<Longrightarrow>
     filter (\<lambda>k. k = c) (map fst (filter P xs)) = (if P (c, r) then [c] else [])"
proof (induction xs)
  case Nil
  then show ?case by simp
next
  case (Cons x xs)
  obtain k v where x: "x = (k, v)" by (cases x)
  show ?case
  proof (cases "k = c")
    case True
    then have "c \<notin> fst ` set xs" using Cons.prems(1) x by simp
    then have "filter (\<lambda>k. k = c) (map fst (filter P xs)) = []"
      by (force simp: filter_empty_conv)
    moreover have "v = r" using Cons.prems(2) x True by simp
    ultimately show ?thesis using x True by simp
  next
    case False
    then show ?thesis using Cons x by simp
  qed
qed

lemma notified_in_window:
  assumes "distinct (map fst (rooms s))" and "map_of (rooms s) c = Some r"
    and "hostDisconnectedAt r = Some t"
  shows "map fst (filter (\<lambda>e. snd e = c) (notifier_run ts s))
           = filter (\<lambda>t'. t + 5000 < t' \<and> t' < t + 30000) ts"
proof (induction ts)
  case Nil
  then show ?case by simp
next
  case (Cons a ts)
  have "filter (\<lambda>e. snd e = c) (notifier_tick a s)
          = map (\<lambda>k. (a, k)) (filter (\<lambda>k. k = c) (getRoomsToNotifyHostDisconnect a s))"
    by (simp add: notifier_tick_def filter_map comp_def)
  also have "\<dots> = (if notify_due a r then [(a, c)] else [])"
    using filter_key_distinct[OF assms(1,2), of "\<lambda>e. notify_due a (snd e)"]
    by (simp add: getRooms_filter)
  finally have "map fst (filter (\<lambda>e. snd e = c) (notifier_tick a s))
                  = (if t + 5000 < a \<and> a < t + 30000 then [a] else [])"
    using assms(3) by (auto simp: notify_due_def)
  then show ?case using Cons by simp
qed

lemma surfaced_iff:
  "c \<in> set (getRoomsToNotifyHostDisconnect now s) =
     (\<exists>r t. (c, r) \<in> set (rooms s) \<and> hostDisconnectedAt r = Some t \<and>
            now - 30000 < t \<and> t < now - 5000)"
  by (auto simp: getRooms_filter notify_due_def image_iff split: option.splits)

lemma reconnected_not_surfaced:
  assumes "distinct (map fst (rooms s))"
  shows "c \<notin> set (getRoomsToNotifyHostDisconnect now (snd (reconnectHost c n s)))"
proof (cases "map_of (rooms s) c")
  case None
  then have "c \<notin> fst ` set (rooms s)" by (simp add: map_of_eq_None_iff)
  then show ?thesis using None by (auto simp: reconnectHost_def getRooms_filter)
next
  case (Some r)
  let ?r' = "r\<lparr>hostSocketId := n, hostDisconnectedAt := None\<rparr>"
  have d: "distinct (map fst (AList.update c ?r' (rooms s)))" using assms by (simp add: distinct_update)
  have m: "map_of (AList.update c ?r' (rooms s)) c = Some ?r'" by (simp add: update_conv')
  have "\<not> notify_due now r'" if "(c, r') \<in> set (AList.update c ?r' (rooms s))" for r'
  proof -
    have "r' = ?r'" using map_of_is_SomeI[OF d that] m by simp
    then show ?thesis by (simp add: notify_due_def)
  qed
  then have "c \<notin> set (map fst (filter (\<lambda>e. notify_due now (snd e)) (AList.update c ?r' (rooms s))))"
    by force
  then show ?thesis using Some
    by (simp add: reconnectHost_def Let_def getRooms_filter)
qed

lemma notifier_run_append:
  "notifier_run (ts1 @ ts2) s = notifier_run ts1 s @ notifier_run ts2 s"
  by (induction ts1) simp_all

lemma notifier_run_silent:
  assumes "\<forall>now. c \<notin> set (getRoomsToNotifyHostDisconnect now s)"
  shows "filter (\<lambda>e. snd e = c) (notifier_run ts s) = []"
proof (induction ts)
  case Nil
  then show ?case by simp
next
  case (Cons a ts)
  have "filter (\<lambda>e. snd e = c) (notifier_tick a s) = []"
    using assms by (auto simp: notifier_tick_def filter_empty_conv)
  then show ?case using Cons by simp
qed

text \<open>
  Claim C8 as stated fails: while the host of room \<open>AAAA\<close> stays disconnected (marked
  at time 1000), the sweeps that run every 2 seconds notify the room twelve times,
  once at every sweep from 8000 to 30000, not once per disconnection.
\<close>

theorem host_notified_repeatedly:
  "map fst (filter (\<lambda>e. snd e = ''AAAA'') (notifier_run demo_sweeps demo_host_away))
     = [8000, 10000, 12000, 14000, 16000, 18000, 20000, 22000, 24000, 26000, 28000, 30000]"
  by (simp add: demo_host_away_eq demo_sweeps_def notifier_tick_def getRooms_filter notify_due_def)

text \<open>
  Claim C8, amended. In a registry without repeated keys, a sweep at time \<open>now\<close>
  surfaces exactly the rooms whose \<open>hostDisconnectedAt\<close> is more than 5 and less than
  30 seconds before \<open>now\<close>; the scan only returns codes and has no registry to return, so
  it deletes nothing. Over any list of sweep times, with the registry unchanged, the
  room is notified at every sweep that falls in that window, hence repeatedly. After
  \<open>reconnectHost\<close> the room is surfaced by no sweep. So for a host that reconnects
  within 5 seconds, neither the sweeps before the reconnection (at most 5 seconds
  after the disconnection) nor any sweep after it announce the room.
\<close>

theorem host_disconnect_sweep_window:
  assumes "distinct (map fst (rooms s))"
  shows "(\<forall>c now. c \<in> set (getRoomsToNotifyHostDisconnect now s) =
            (\<exists>r t. map_of (rooms s) c = Some r \<and> hostDisconnectedAt r = Some t \<and>
                   now - 30000 < t \<and> t < now - 5000)) \<and>
         (\<forall>c r t ts. map_of (rooms s) c = Some r \<and> hostDisconnectedAt r = Some t \<longrightarrow>
            map fst (filter (\<lambda>e. snd e = c) (notifier_run ts s))
              = filter (\<lambda>t'. t + 5000 < t' \<and> t' < t + 30000) ts) \<and>
         (\<forall>c n now. c \<notin> set (getRoomsToNotifyHostDisconnect now (snd (reconnectHost c n s)))) \<and>
         (\<forall>c r t n before after.
            map_of (rooms s) c = Some r \<and> hostDisconnectedAt r = Some t \<and>
            list_all (\<lambda>t'. t' \<le> t + 5000) before \<longrightarrow>
            filter (\<lambda>e. snd e = c)
              (notifier_run before s @ notifier_run after (snd (reconnectHost c n s))) = [])"
proof -
  have a: "c \<in> set (getRoomsToNotifyHostDisconnect now s) =
            (\<exists>r t. map_of (rooms s) c = Some r \<and> hostDisconnectedAt r = Some t \<and>
                   now - 30000 < t \<and> t < now - 5000)" for c now
    using assms by (auto simp: surfaced_iff dest: map_of_SomeD)
  have d: "filter (\<lambda>e. snd e = c)
              (notifier_run before s @ notifier_run after (snd (reconnectHost c n s))) = []"
    if h: "map_of (rooms s) c = Some r" "hostDisconnectedAt r = Some t"
      "list_all (\<lambda>t'. t' \<le> t + 5000) before"
    for c r t n before after
  proof -
    have "filter (\<lambda>t'. t + 5000 < t' \<and> t' < t + 30000) before = []"
      using h(3) by (auto simp: filter_empty_conv list_all_iff)
    then have "map fst (filter (\<lambda>e. snd e = c) (notifier_run before s)) = []"
      using notified_in_window[OF assms h(1,2)] by simp
    then have 1: "filter (\<lambda>e. snd e = c) (notifier_run before s) = []" by simp
    have 2: "filter (\<lambda>e. snd e = c) (notifier_run after (snd (reconnectHost c n s))) = []"
      using notifier_run_silent reconnected_not_surfaced[OF assms] by blast
    show ?thesis using 1 2 by simp
  qed
  show ?thesis using a notified_in_window[OF assms] reconnected_not_surfaced[OF assms] d by blast
qed

text \<open>
  The theorem at the room marked at time 1000: not surfaced at 6000, surfaced at 8000
  and at 10000, and not surfaced once the host has reconnected.
\<close>

theorem host_disconnect_sweep_window_witness:
  "distinct (map fst (rooms demo_host_away)) \<and>
   getRoomsToNotifyHostDisconnect 8000 demo_host_away = [''AAAA''] \<and>
   getRoomsToNotifyHostDisconnect 6000 demo_host_away = [] \<and>
   map fst (filter (\<lambda>e. snd e = ''AAAA'') (notifier_run [6000, 8000, 10000] demo_host_away)) = [8000, 10000] \<and>
   ''AAAA'' \<notin> set (getRoomsToNotifyHostDisconnect 8000 (snd (reconnectHost ''AAAA'' ''h2'' demo_host_away))) \<and>
   filter (\<lambda>e. snd e = ''AAAA'')
     (notifier_run [2000, 4000, 6000] demo_host_away @
      notifier_run [8000, 10000] (snd (reconnectHost ''AAAA'' ''h2'' demo_host_away))) = []"
proof -
  have d: "distinct (map fst (rooms demo_host_away))" by (simp add: demo_host_away_eq)
  have m: "map_of (rooms demo_host_away) ''AAAA'' = Some (snd (hd (rooms demo_host_away)))"
    by (simp add: demo_host_away_eq)
  have h: "hostDisconnectedAt (snd (hd (rooms demo_host_away))) = Some 1000"
    by (simp add: demo_host_away_eq)
  have "map fst (filter (\<lambda>e. snd e = ''AAAA'') (notifier_run [6000, 8000, 10000] demo_host_away))
          = filter (\<lambda>t'. 1000 + 5000 < t' \<and> t' < 1000 + 30000) [6000, 8000, 10000]"
    using host_disconnect_sweep_window[OF d] m h by blast
  then have w: "map fst (filter (\<lambda>e. snd e = ''AAAA'') (notifier_run [6000, 8000, 10000] demo_host_away))
             = [8000, 10000]"
    by simp
  have r: "''AAAA'' \<notin> set (getRoomsToNotifyHostDisconnect 8000 (snd (reconnectHost ''AAAA'' ''h2'' demo_host_away)))"
    using host_disconnect_sweep_window[OF d] by blast
  have b: "list_all (\<lambda>t'. t' \<le> 1000 + 5000) [2000, 4000, 6000 :: int]" by simp
  have q: "filter (\<lambda>e. snd e = ''AAAA'')
     (notifier_run [2000, 4000, 6000] demo_host_away @
      notifier_run [8000, 10000] (snd (reconnectHost ''AAAA'' ''h2'' demo_host_away))) = []"
    using host_disconnect_sweep_window[OF d] m h b by blast
  have g8: "getRoomsToNotifyHostDisconnect 8000 demo_host_away = [''AAAA'']"
    by (simp add: demo_host_away_eq getRooms_filter notify_due_def)
  have g6: "getRoomsToNotifyHostDisconnect 6000 demo_host_away = []"
    by (simp add: demo_host_away_eq getRooms_filter notify_due_def)
  show ?thesis using d w g8 g6 r q by simp
qed

subsection \<open>Player ids\<close>

lemma mark_disconnected_ids:
  "list_all (\<lambda>e. player_id (snd e) = fst e) ps \<Longrightarrow>
     list_all (\<lambda>e. player_id (snd e) = fst e) (snd (mark_disconnected sid ps))"
  by (induction ps) auto

lemma rooms_players_ok_lookup:
  "rooms_players_ok s \<Longrightarrow> map_of (rooms s) rc = Some r \<Longrightarrow> players_ok r"
  by (auto simp: rooms_players_ok_def list_all_iff dest!: map_of_SomeD)

lemma rooms_players_ok_update:
  "rooms_players_ok s \<Longrightarrow> players_ok r \<Longrightarrow>
     rooms_players_ok (s\<lparr>rooms := AList.update rc r (rooms s), playerToRoom := m\<rparr>)"
  by (simp add: rooms_players_ok_def list_all_update)

lemma rooms_players_ok_update':
  "rooms_players_ok s \<Longrightarrow> players_ok r \<Longrightarrow>
     rooms_players_ok (s\<lparr>rooms := AList.update rc r (rooms s)\<rparr>)"
  by (simp add: rooms_players_ok_def list_all_update)

lemma players_ok_fields:
  "players_ok (r\<lparr>gameState := a\<rparr>) = players_ok r"
  "players_ok (r\<lparr>gameState := a, readyPlayers := d\<rparr>) = players_ok r"
  "players_ok (r\<lparr>hostSocketId := b, hostDisconnectedAt := c\<rparr>) = players_ok r"
  by (simp_all add: players_ok_def)

lemma players_ok_join:
  "players_ok r \<Longrightarrow> players_ok (r\<lparr>players := AList.update (player_id p) p (players r)\<rparr>)"
  by (simp add: players_ok_def distinct_update list_all_update)

lemma players_ok_mark:
  "players_ok r \<Longrightarrow> players_ok (r\<lparr>players := snd (mark_disconnected sid (players r))\<rparr>)"
  "players_ok r \<Longrightarrow>
     players_ok (r\<lparr>players := snd (mark_disconnected sid (players r)), hostDisconnectedAt := t\<rparr>)"
  by (simp_all add: players_ok_def mark_disconnected_keys mark_disconnected_ids)

lemma players_ok_reconnect:
  assumes "players_ok r" and "map_of (players r) pid = Some p"
  shows "players_ok (r\<lparr>players := AList.update pid (p\<lparr>socketId := n, connected := True\<rparr>) (players r)\<rparr>)"
proof -
  have "(pid, p) \<in> set (players r)" using assms(2) by (rule map_of_SomeD)
  then have "player_id p = pid" using assms(1) by (auto simp: players_ok_def list_all_iff)
  then show ?thesis using assms(1) by (simp add: players_ok_def distinct_update list_all_update)
qed

lemma players_ok_remove:
  "players_ok r \<Longrightarrow> players_ok (r\<lparr>players := AList.delete pid (players r)\<rparr>)"
  by (simp add: players_ok_def distinct_delete list_all_delete)

lemma rooms_players_ok_cleanup_loop:
  "rooms_players_ok s \<Longrightarrow> rooms_players_ok (cleanup_loop now xs s)"
proof (induction xs arbitrary: s)
  case Nil
  then show ?case by simp
next
  case (Cons x xs)
  obtain c r where x: "x = (c, r)" by (cases x)
  have "rooms_players_ok (s\<lparr>rooms := AList.delete c (rooms s), playerToRoom := release_players (players r) (playerToRoom s)\<rparr>)"
    using Cons.prems by (simp add: rooms_players_ok_def list_all_delete)
  then show ?case using Cons x by simp
qed

lemma rooms_players_ok_step: "rooms_players_ok s \<Longrightarrow> rooms_players_ok (rm_step x s)"
proof (cases x)
  case (CreateRoom now draws h)
  assume "rooms_players_ok s"
  then show ?thesis using CreateRoom
    by (auto simp: createRoom_def players_ok_def split: option.splits intro!: rooms_players_ok_update')
next
  case (JoinRoom rc p)
  assume "rooms_players_ok s"
  then show ?thesis using JoinRoom
    by (auto simp: joinRoom_def split: option.splits
        intro!: rooms_players_ok_update players_ok_join dest: rooms_players_ok_lookup)
next
  case (LeaveRoom now sid)
  assume "rooms_players_ok s"
  then show ?thesis using LeaveRoom
    by (auto simp: leaveRoom_def Let_def split: option.splits
        intro!: rooms_players_ok_update players_ok_mark dest: rooms_players_ok_lookup)
next
  case (ReconnectPlayer rc pid n)
  assume "rooms_players_ok s"
  then show ?thesis using ReconnectPlayer
    by (auto simp: reconnectPlayer_def Let_def split: option.splits
        intro!: rooms_players_ok_update players_ok_reconnect dest: rooms_players_ok_lookup)
next
  case (RemovePlayer rc pid)
  assume "rooms_players_ok s"
  then show ?thesis using RemovePlayer
    by (auto simp: removePlayer_def split: option.splits
        intro!: rooms_players_ok_update rooms_players_ok_update' players_ok_remove
        dest: rooms_players_ok_lookup)
next
  case (CleanupOldRooms now)
  assume "rooms_players_ok s"
  then show ?thesis using CleanupOldRooms by (simp add: cleanupOldRooms_def rooms_players_ok_cleanup_loop)
qed (auto simp: startGame_room_def endGame_room_def resetRoom_def reconnectHost_def Let_def
      players_ok_fields split: option.splits intro!: rooms_players_ok_update'
      dest: rooms_players_ok_lookup)

lemma rooms_players_ok_run: "rooms_players_ok s \<Longrightarrow> rooms_players_ok (rm_run ops s)"
  unfolding rm_run_def by (induction ops arbitrary: s) (simp_all add: rooms_players_ok_step)

section \<open>Properties of game sessions\<close>

subsection \<open>Teams of a created tug-of-war session\<close>

text \<open>
  \<open>createTugOfWarGame\<close> puts every player on one team. In every registry that the
  \<open>RoomManager\<close> calls can reach, the players of a room have pairwise different ids, so
  the red and the blue team of a session created from a room share no player.
\<close>

lemma tug_loop_teams:
  "tug_loop m ws i ps (st, pw, r, b) = (st', pw', r', b') \<Longrightarrow>
     distinct (r @ b @ map player_id ps) \<Longrightarrow> distinct (r' @ b')"
proof (induction ps arbitrary: i st pw r b)
  case Nil
  then show ?case by simp
next
  case (Cons p ps)
  show ?case
  proof (cases "i < m")
    case True
    then have "tug_loop m ws (Suc i) ps
        (AList.update (player_id p)
          \<lparr>pgs_id = player_id p, pgs_name = player_name p, score = 0, isAlive = True,
           position = Some \<lparr>point_x = 25, point_y = 50\<rparr>\<rparr> st,
         AList.update (player_id p) (ws ! (i mod length ws)) pw, r @ [player_id p], b) = (st', pw', r', b')"
      using Cons.prems(1) by simp
    moreover have "distinct ((r @ [player_id p]) @ b @ map player_id ps)" using Cons.prems(2) by auto
    ultimately show ?thesis by (rule Cons.IH)
  next
    case False
    then have "tug_loop m ws (Suc i) ps
        (AList.update (player_id p)
          \<lparr>pgs_id = player_id p, pgs_name = player_name p, score = 0, isAlive = True,
           position = Some \<lparr>point_x = 75, point_y = 50\<rparr>\<rparr> st,
         AList.update (player_id p) (ws ! (i mod length ws)) pw, r, b @ [player_id p]) = (st', pw', r', b')"
      using Cons.prems(1) by simp
    moreover have "distinct (r @ (b @ [player_id p]) @ map player_id ps)" using Cons.prems(2) by auto
    ultimately show ?thesis by (rule Cons.IH)
  qed
qed

lemma createTugOfWarGame_teams_disjoint:
  assumes "createTugOfWarGame ps draws = Inr g" and "distinct (map (\<lambda>e. player_id (snd e)) ps)"
  shows "set (red (teams g)) \<inter> set (blue (teams g)) = {}"
proof -
  obtain st pw r b where l: "tug_loop (length ps div 2) (shuffled_words draws) 0 (map snd ps) ([], [], [], []) = (st, pw, r, b)"
    by (metis prod_cases4)
  have g: "red (teams g) = r" "blue (teams g) = b"
    using assms(1) l by (auto simp: createTugOfWarGame_def Let_def split: if_splits)
  have "distinct ([] @ [] @ map player_id (map snd ps))" using assms(2) by (simp add: comp_def)
  then have "distinct (r @ b)" using tug_loop_teams[OF l] by simp
  then show ?thesis using g by auto
qed

lemma created_teams_disjoint:
  assumes "map_of (rooms (rm_run ops new_manager)) rc = Some r"
    and "createTugOfWarGame (players r) draws = Inr g"
  shows "set (red (teams g)) \<inter> set (blue (teams g)) = {}"
proof -
  have "rooms_players_ok (rm_run ops new_manager)"
    by (rule rooms_players_ok_run) (simp add: rooms_players_ok_def new_manager_def)
  then have ok: "players_ok r" using assms(1) by (rule rooms_players_ok_lookup)
  have eq: "map (\<lambda>e. player_id (snd e)) (players r) = map fst (players r)"
    using ok by (auto simp: players_ok_def list_all_iff)
  have "distinct (map fst (players r))" using ok by (simp add: players_ok_def)
  then have "distinct (map (\<lambda>e. player_id (snd e)) (players r))" unfolding eq .
  then show ?thesis using createTugOfWarGame_teams_disjoint[OF assms(2)] by simp
qed

subsection \<open>Countdown\<close>

lemma countdown_callback_continue:
  "0 < c \<Longrightarrow> countdown_callback now rc c gm = (Some (c - 1), gm\<lparr>emitted := emitted gm @ [(now, Countdown rc c)]\<rparr>)"
  by (simp add: countdown_callback_def Let_def)

lemma countdown_callback_zero:
  "map_of (games gm) rc = Some game \<Longrightarrow>
   countdown_callback now rc 0 gm =
     (None, gm\<lparr>emitted := emitted gm @ [(now, Countdown rc 0)],
               games := AList.update rc (set_status GamePlaying game) (games gm),
               gameLoops := AList.update rc () (gameLoops gm)\<rparr>)"
  by (simp add: countdown_callback_def Let_def startGameLoop_def)

lemma game_status_of_set_status: "game_status_of (set_status st game) = st"
  by (cases game) (simp_all add: game_status_of_def set_status_def)

lemma game_status_of_set_startTime: "game_status_of (set_startTime t game) = game_status_of game"
  by (cases game) (simp_all add: game_status_of_def set_startTime_def)

text \<open>
  Claim C4 as stated fails: there is no hold after count 0. In a session started at
  time 0, the three firings at 1000, 2000 and 3000 leave the session in \<open>countdown\<close>;
  the one firing at 4000 emits count 0, and the same run of the callback sets the
  status to \<open>playing\<close> and starts the tick loop.
\<close>

theorem playing_in_step_of_count_zero:
  "startGame 0 ''AAAA'' demo_waiting = Inr (3, demo_counting) \<and>
   run_countdown 3 0 ''AAAA'' (Some 3) demo_counting = (Some 0, demo_at_one) \<and>
   map_option game_status_of (map_of (games demo_at_one) ''AAAA'') = Some GameCountdown \<and>
   emitted (snd (countdown_callback 4000 ''AAAA'' 0 demo_at_one)) = emitted demo_at_one @ [(4000, Countdown ''AAAA'' 0)] \<and>
   map_option game_status_of (map_of (games (snd (countdown_callback 4000 ''AAAA'' 0 demo_at_one))) ''AAAA'')
     = Some GamePlaying \<and>
   map_of (gameLoops (snd (countdown_callback 4000 ''AAAA'' 0 demo_at_one))) ''AAAA'' = Some ()"
proof -
  have n3: "(3::nat) = Suc (Suc (Suc 0))" by simp
  show ?thesis unfolding n3
    by (simp add: demo_waiting_def demo_counting_def demo_at_one_def demo_games_def demo_tug_def startGame_def
        countdown_callback_def Let_def startGameLoop_def set_status_def set_startTime_def game_status_of_def)
qed

text \<open>
  Claim C4, amended. For a room with a game, \<open>startGame\<close> at time \<open>now\<close> puts the game
  into \<open>countdown\<close>. The interval then emits the counts 3, 2, 1, 0 in this order, one
  second apart, at \<open>now + 1000\<close> to \<open>now + 4000\<close>. After the first three firings the game
  is still in \<open>countdown\<close> and no tick loop is registered. The fourth firing, which is
  the run of the callback that emits count 0, sets the status to \<open>playing\<close>, registers
  the tick loop and clears the interval; a fifth firing does not happen.
\<close>

theorem countdown_then_playing:
  assumes "map_of (games gm) rc = Some game"
  shows "\<exists>gm0. startGame now rc gm = Inr (3, gm0) \<and>
           map_option game_status_of (map_of (games gm0) rc) = Some GameCountdown \<and>
           fst (run_countdown 3 now rc (Some 3) gm0) = Some 0 \<and>
           emitted (snd (run_countdown 3 now rc (Some 3) gm0)) =
             emitted gm @ [(now + 1000, Countdown rc 3), (now + 2000, Countdown rc 2),
                           (now + 3000, Countdown rc 1)] \<and>
           map_option game_status_of (map_of (games (snd (run_countdown 3 now rc (Some 3) gm0))) rc)
             = Some GameCountdown \<and>
           gameLoops (snd (run_countdown 3 now rc (Some 3) gm0)) = gameLoops gm \<and>
           fst (run_countdown 4 now rc (Some 3) gm0) = None \<and>
           emitted (snd (run_countdown 4 now rc (Some 3) gm0)) =
             emitted gm @ [(now + 1000, Countdown rc 3), (now + 2000, Countdown rc 2),
                           (now + 3000, Countdown rc 1), (now + 4000, Countdown rc 0)] \<and>
           map_option game_status_of (map_of (games (snd (run_countdown 4 now rc (Some 3) gm0))) rc)
             = Some GamePlaying \<and>
           map_of (gameLoops (snd (run_countdown 4 now rc (Some 3) gm0))) rc = Some () \<and>
           run_countdown 4 now rc (Some 3) gm0 =
             countdown_callback (now + 4000) rc 0 (snd (run_countdown 3 now rc (Some 3) gm0)) \<and>
           run_countdown 5 now rc (Some 3) gm0 = run_countdown 4 now rc (Some 3) gm0"
proof -
  let ?gm0 = "gm\<lparr>games := AList.update rc (set_startTime now (set_status GameCountdown game)) (games gm)\<rparr>"
  have s: "startGame now rc gm = Inr (3, ?gm0)" using assms by (simp add: startGame_def)
  have m0: "map_option game_status_of (map_of (games ?gm0) rc) = Some GameCountdown"
    by (simp add: update_conv' game_status_of_set_status game_status_of_set_startTime)
  have n3: "(3::nat) = Suc (Suc (Suc 0))" and n4: "(4::nat) = Suc (Suc (Suc (Suc 0)))"
    and n5: "(5::nat) = Suc (Suc (Suc (Suc (Suc 0))))" by simp_all
  let ?gm3 = "?gm0\<lparr>emitted := emitted gm @ [(now + 1000, Countdown rc 3), (now + 2000, Countdown rc 2),
                                                    (now + 3000, Countdown rc 1)]\<rparr>"
  let ?gm4 = "?gm0\<lparr>emitted := emitted gm @ [(now + 1000, Countdown rc 3), (now + 2000, Countdown rc 2),
                                                  (now + 3000, Countdown rc 1), (now + 4000, Countdown rc 0)],
                        games := AList.update rc (set_status GamePlaying (set_startTime now (set_status GameCountdown game))) (games ?gm0),
                        gameLoops := AList.update rc () (gameLoops gm)\<rparr>"
  have r3: "run_countdown 3 now rc (Some 3) ?gm0 = (Some 0, ?gm3)"
    unfolding n3 by (simp add: countdown_callback_def Let_def)
  have r4: "run_countdown 4 now rc (Some 3) ?gm0 = (None, ?gm4)"
    unfolding n4 by (simp add: countdown_callback_def Let_def startGameLoop_def update_conv')
  have r5: "run_countdown 5 now rc (Some 3) ?gm0 = run_countdown 4 now rc (Some 3) ?gm0"
    unfolding n4 n5 by (simp add: countdown_callback_def Let_def startGameLoop_def update_conv')
  have c4: "countdown_callback (now + 4000) rc 0 ?gm3 = (None, ?gm4)"
    by (simp add: countdown_callback_def Let_def startGameLoop_def update_conv')
  have st3: "map_option game_status_of (map_of (games ?gm3) rc) = Some GameCountdown"
    by (simp add: update_conv' game_status_of_set_status game_status_of_set_startTime)
  have st4: "map_option game_status_of (map_of (games ?gm4) rc) = Some GamePlaying"
    by (simp add: update_conv' game_status_of_set_status)
  have l4: "map_of (gameLoops ?gm4) rc = Some ()" by (simp add: update_conv')
  have e3: "emitted ?gm3 = emitted gm @ [(now + 1000, Countdown rc 3), (now + 2000, Countdown rc 2),
                           (now + 3000, Countdown rc 1)]" "gameLoops ?gm3 = gameLoops gm" by simp_all
  have e4: "emitted ?gm4 = emitted gm @ [(now + 1000, Countdown rc 3), (now + 2000, Countdown rc 2),
                           (now + 3000, Countdown rc 1), (now + 4000, Countdown rc 0)]" by simp
  show ?thesis
    apply (rule exI[of _ ?gm0])
    unfolding r5 unfolding r3 r4 fst_conv snd_conv c4
    using s m0 st3 st4 l4 e3 e4 by blast
qed

text \<open>The theorem at a waiting tug-of-war session started at time 0.\<close>

theorem countdown_then_playing_witness:
  "map_of (games demo_waiting) ''AAAA'' = Some (TugOfWarGame (demo_tug\<lparr>status := GameWaiting, startTime := None\<rparr>)) \<and>
   (\<exists>gm0. startGame 0 ''AAAA'' demo_waiting = Inr (3, gm0) \<and>
      emitted (snd (run_countdown 4 0 ''AAAA'' (Some 3) gm0)) =
        [(1000, Countdown ''AAAA'' 3), (2000, Countdown ''AAAA'' 2), (3000, Countdown ''AAAA'' 1),
         (4000, Countdown ''AAAA'' 0)] \<and>
      map_option game_status_of (map_of (games (snd (run_countdown 3 0 ''AAAA'' (Some 3) gm0))) ''AAAA'')
        = Some GameCountdown \<and>
      map_option game_status_of (map_of (games (snd (run_countdown 4 0 ''AAAA'' (Some 3) gm0))) ''AAAA'')
        = Some GamePlaying)"
proof -
  have m: "map_of (games demo_waiting) ''AAAA'' = Some (TugOfWarGame (demo_tug\<lparr>status := GameWaiting, startTime := None\<rparr>))"
    by (simp add: demo_waiting_def demo_games_def)
  have e: "emitted demo_waiting = []" by (simp add: demo_waiting_def demo_games_def)
  show ?thesis using m countdown_then_playing[OF m, of 0] unfolding e by auto
qed

subsection \<open>Tug of war\<close>

lemma tug_red_pull:
  "playerId a \<in> set (red (teams g)) \<Longrightarrow>
   processTugOfWarCommand g a =
     g\<lparr>ropePosition := max (- 100) (ropePosition g - 3 * (case action_matchScore a of None \<Rightarrow> 1 | Some m \<Rightarrow> m))\<rparr>"
  by (simp add: processTugOfWarCommand_def Let_def)

lemma tug_blue_pull:
  "playerId a \<in> set (blue (teams g)) \<Longrightarrow> playerId a \<notin> set (red (teams g)) \<Longrightarrow>
   processTugOfWarCommand g a =
     g\<lparr>ropePosition := min 100 (ropePosition g + 3 * (case action_matchScore a of None \<Rightarrow> 1 | Some m \<Rightarrow> m))\<rparr>"
  by (simp add: processTugOfWarCommand_def Let_def)

lemma processCommand_tug:
  "map_of (games gm) rc = Some (TugOfWarGame g) \<Longrightarrow> status g = GamePlaying \<Longrightarrow>
   processCommand rc a gm = gm\<lparr>games := AList.update rc (TugOfWarGame (processTugOfWarCommand g a)) (games gm)\<rparr>"
  by (simp add: processCommand_def game_status_of_def)

lemma blue_pulls:
  assumes "playerId a \<in> set (blue (teams g))" and "playerId a \<notin> set (red (teams g))"
    and "action_matchScore a = Some 2"
    and "status g = GamePlaying" and "ropePosition g = 0"
  shows "map_of (games gm) rc = Some (TugOfWarGame g) \<Longrightarrow>
         map_of (games (((processCommand rc a) ^^ n) gm)) rc
           = Some (TugOfWarGame (g\<lparr>ropePosition := min 100 (6 * real n)\<rparr>))"
proof (induction n)
  case 0
  then show ?case using assms(5) by simp
next
  case (Suc n)
  let ?gm = "((processCommand rc a) ^^ n) gm"
  let ?g = "g\<lparr>ropePosition := min 100 (6 * real n)\<rparr>"
  have m: "map_of (games ?gm) rc = Some (TugOfWarGame ?g)" using Suc by simp
  have st: "status ?g = GamePlaying" using assms(4) by simp
  have b: "playerId a \<in> set (blue (teams ?g))" "playerId a \<notin> set (red (teams ?g))"
    using assms(1,2) by simp_all
  have "processTugOfWarCommand ?g a = ?g\<lparr>ropePosition := min 100 (min 100 (6 * real n) + 6)\<rparr>"
    using tug_blue_pull[OF b] assms(3) by simp
  also have "\<dots> = g\<lparr>ropePosition := min 100 (6 * real (Suc n))\<rparr>"
    by (simp add: min_def)
  finally have "processCommand rc a ?gm
       = ?gm\<lparr>games := AList.update rc (TugOfWarGame (g\<lparr>ropePosition := min 100 (6 * real (Suc n))\<rparr>)) (games ?gm)\<rparr>"
    using processCommand_tug[OF m st] by simp
  then show ?case by (simp add: update_conv')
qed

lemma tug_end_blue:
  "fst (checkGameEnd (TugOfWarGame (g\<lparr>ropePosition := min 100 (6 * real n)\<rparr>))) = (14 \<le> n)"
proof -
  have "(80 \<le> min 100 (6 * real n)) = (14 \<le> n)" by (auto simp: min_def)
  moreover have "\<not> min 100 (6 * real n) \<le> - 80" by (simp add: min_def)
  ultimately show ?thesis by (simp add: checkGameEnd_def)
qed

text \<open>
  Claim C6. In a tug-of-war session in status \<open>playing\<close>, an action of a red player
  moves the rope by \<open>- 3 * matchScore\<close>, not below \<open>- 100\<close>; an action of a blue player
  moves it by \<open>+ 3 * matchScore\<close>, not above \<open>100\<close> (a missing \<open>matchScore\<close> counts as 1).
  The source tests the red team first, so the blue case is stated for a player that
  is not also listed as red; the teams of a session that \<open>createTugOfWarGame\<close> builds
  from a room of the registry never overlap, as shown above. From rope position 0,
  after \<open>n\<close> actions of score 2 by such a blue player the rope is at 6 for \<open>n = 1\<close>, 78
  for \<open>n = 13\<close> and 84 for \<open>n = 14\<close>; \<open>checkGameEnd\<close> reports the end exactly from the
  14th action on, and then sets \<open>winner\<close> to the first id of the blue list.
\<close>

theorem tug_of_war_pulls:
  assumes "map_of (games gm) rc = Some (TugOfWarGame g)" and "status g = GamePlaying"
  shows "(playerId a \<in> set (red (teams g)) \<longrightarrow>
            processCommand rc a gm = gm\<lparr>games := AList.update rc
              (TugOfWarGame (g\<lparr>ropePosition :=
                 max (- 100) (ropePosition g - 3 * (case action_matchScore a of None \<Rightarrow> 1 | Some m \<Rightarrow> m))\<rparr>))
              (games gm)\<rparr>) \<and>
         (playerId a \<in> set (blue (teams g)) \<and> playerId a \<notin> set (red (teams g)) \<longrightarrow>
            processCommand rc a gm = gm\<lparr>games := AList.update rc
              (TugOfWarGame (g\<lparr>ropePosition :=
                 min 100 (ropePosition g + 3 * (case action_matchScore a of None \<Rightarrow> 1 | Some m \<Rightarrow> m))\<rparr>))
              (games gm)\<rparr>) \<and>
         (\<forall>n. playerId a \<in> set (blue (teams g)) \<and> playerId a \<notin> set (red (teams g)) \<and>
               action_matchScore a = Some 2 \<and> ropePosition g = 0 \<longrightarrow>
            (\<exists>g'. map_of (games (((processCommand rc a) ^^ n) gm)) rc = Some (TugOfWarGame g') \<and>
                  (n = 1 \<longrightarrow> ropePosition g' = 6) \<and>
                  (n = 13 \<longrightarrow> ropePosition g' = 78) \<and>
                  (n = 14 \<longrightarrow> ropePosition g' = 84) \<and>
                  fst (checkGameEnd (TugOfWarGame g')) = (14 \<le> n) \<and>
                  (14 \<le> n \<longrightarrow>
                     (\<exists>w rest g''. blue (teams g) = w # rest \<and>
                        snd (checkGameEnd (TugOfWarGame g')) = TugOfWarGame g'' \<and> winner g'' = Some w))))"
proof -
  have r: "playerId a \<in> set (red (teams g)) \<longrightarrow>
            processCommand rc a gm = gm\<lparr>games := AList.update rc
              (TugOfWarGame (g\<lparr>ropePosition :=
                 max (- 100) (ropePosition g - 3 * (case action_matchScore a of None \<Rightarrow> 1 | Some m \<Rightarrow> m))\<rparr>))
              (games gm)\<rparr>"
    using processCommand_tug[OF assms] tug_red_pull[where g=g and a=a] by simp
  have b: "playerId a \<in> set (blue (teams g)) \<and> playerId a \<notin> set (red (teams g)) \<longrightarrow>
            processCommand rc a gm = gm\<lparr>games := AList.update rc
              (TugOfWarGame (g\<lparr>ropePosition :=
                 min 100 (ropePosition g + 3 * (case action_matchScore a of None \<Rightarrow> 1 | Some m \<Rightarrow> m))\<rparr>))
              (games gm)\<rparr>"
    using processCommand_tug[OF assms] tug_blue_pull[where g=g and a=a] by simp
  have p: "\<exists>g'. map_of (games (((processCommand rc a) ^^ n) gm)) rc = Some (TugOfWarGame g') \<and>
                  (n = 1 \<longrightarrow> ropePosition g' = 6) \<and>
                  (n = 13 \<longrightarrow> ropePosition g' = 78) \<and>
                  (n = 14 \<longrightarrow> ropePosition g' = 84) \<and>
                  fst (checkGameEnd (TugOfWarGame g')) = (14 \<le> n) \<and>
                  (14 \<le> n \<longrightarrow>
                     (\<exists>w rest g''. blue (teams g) = w # rest \<and>
                        snd (checkGameEnd (TugOfWarGame g')) = TugOfWarGame g'' \<and> winner g'' = Some w))"
    if h: "playerId a \<in> set (blue (teams g))" "playerId a \<notin> set (red (teams g))"
      "action_matchScore a = Some 2" "ropePosition g = 0"
    for n
  proof -
    let ?g' = "g\<lparr>ropePosition := min 100 (6 * real n)\<rparr>"
    have 1: "map_of (games (((processCommand rc a) ^^ n) gm)) rc = Some (TugOfWarGame ?g')"
      using blue_pulls[OF h(1,2,3) assms(2) h(4) assms(1)] .
    have 2: "fst (checkGameEnd (TugOfWarGame ?g')) = (14 \<le> n)" by (rule tug_end_blue)
    obtain w rest where wr: "blue (teams g) = w # rest"
      using h(1) by (cases "blue (teams g)") simp_all
    have 3: "14 \<le> n \<longrightarrow> snd (checkGameEnd (TugOfWarGame ?g')) = TugOfWarGame (?g'\<lparr>winner := Some w\<rparr>)"
      using wr by (auto simp: checkGameEnd_def min_def)
    have 4: "(n = 1 \<longrightarrow> ropePosition ?g' = 6) \<and> (n = 13 \<longrightarrow> ropePosition ?g' = 78) \<and> (n = 14 \<longrightarrow> ropePosition ?g' = 84)"
      by simp
    show ?thesis
      apply (rule exI[of _ ?g'])
      using 1 2 3 4 wr by auto
  qed
  show ?thesis using r b p by blast
qed

text \<open>The theorem at a session with one red and one blue player.\<close>

theorem tug_of_war_pulls_witness:
  "map_of (games (demo_games (TugOfWarGame demo_tug))) ''AAAA'' = Some (TugOfWarGame demo_tug) \<and>
   status demo_tug = GamePlaying \<and> ropePosition demo_tug = 0 \<and>
   ''p1'' \<in> set (red (teams demo_tug)) \<and>
   ''p2'' \<in> set (blue (teams demo_tug)) \<and> ''p2'' \<notin> set (red (teams demo_tug)) \<and>
   map_of (games (processCommand ''AAAA'' (pull ''p1'' 2) (demo_games (TugOfWarGame demo_tug)))) ''AAAA''
     = Some (TugOfWarGame (demo_tug\<lparr>ropePosition := - 6\<rparr>)) \<and>
   map_of (games (processCommand ''AAAA'' (pull ''p2'' 2) (demo_games (TugOfWarGame demo_tug)))) ''AAAA''
     = Some (TugOfWarGame (demo_tug\<lparr>ropePosition := 6\<rparr>)) \<and>
   (\<exists>g'. map_of (games (((processCommand ''AAAA'' (pull ''p2'' 2)) ^^ 14) (demo_games (TugOfWarGame demo_tug)))) ''AAAA''
            = Some (TugOfWarGame g') \<and>
         ropePosition g' = 84 \<and> fst (checkGameEnd (TugOfWarGame g')) \<and>
         (\<exists>g''. snd (checkGameEnd (TugOfWarGame g')) = TugOfWarGame g'' \<and> winner g'' = Some ''p2''))"
proof -
  let ?gm = "demo_games (TugOfWarGame demo_tug)"
  have m: "map_of (games ?gm) ''AAAA'' = Some (TugOfWarGame demo_tug)" by (simp add: demo_games_def)
  have st: "status demo_tug = GamePlaying" by (simp add: demo_tug_def)
  have f: "ropePosition demo_tug = 0" "''p1'' \<in> set (red (teams demo_tug))"
      "''p2'' \<in> set (blue (teams demo_tug))" "''p2'' \<notin> set (red (teams demo_tug))"
      "blue (teams demo_tug) = [''p2'']"
    by (simp_all add: demo_tug_def)
  have a: "playerId (pull ''p2'' 2) = ''p2''" "action_matchScore (pull ''p2'' 2) = Some 2"
      "playerId (pull ''p1'' 2) = ''p1''" "action_matchScore (pull ''p1'' 2) = Some 2"
    by (simp_all add: pull_def)
  note t = tug_of_war_pulls[OF m st]
  have r: "processCommand ''AAAA'' (pull ''p1'' 2) ?gm
             = ?gm\<lparr>games := AList.update ''AAAA'' (TugOfWarGame (demo_tug\<lparr>ropePosition := - 6\<rparr>)) (games ?gm)\<rparr>"
    using t[of "pull ''p1'' 2"] f a by simp
  have b: "processCommand ''AAAA'' (pull ''p2'' 2) ?gm
             = ?gm\<lparr>games := AList.update ''AAAA'' (TugOfWarGame (demo_tug\<lparr>ropePosition := 6\<rparr>)) (games ?gm)\<rparr>"
    using t[of "pull ''p2'' 2"] f a by simp
  have "\<exists>g'. map_of (games (((processCommand ''AAAA'' (pull ''p2'' 2)) ^^ 14) ?gm)) ''AAAA'' = Some (TugOfWarGame g') \<and>
         ropePosition g' = 84 \<and> fst (checkGameEnd (TugOfWarGame g')) \<and>
         (\<exists>g''. snd (checkGameEnd (TugOfWarGame g')) = TugOfWarGame g'' \<and> winner g'' = Some ''p2'')"
    using t[of "pull ''p2'' 2"] f a by fastforce
  then show ?thesis using m st f r b by (simp add: update_conv')
qed

subsection \<open>Racer\<close>

text \<open>
  Claim C7. In a racer session in status \<open>playing\<close>, for a player with an assigned
  (non-empty) word, an action sets the player's speed to
  \<open>min (speed + boost) (0.15 * matchScore)\<close> with
  \<open>boost = (if speed < 0.015 then 0.06 else 0.04) * matchScore\<close>, where \<open>speed\<close> is the
  stored speed (0 when none is stored) and a missing \<open>matchScore\<close> counts as 1; nothing
  else of the session changes. From speed 0 a score of 1 gives 0.06 and a score of 2
  gives 0.12.
\<close>

theorem racer_boost:
  assumes "map_of (games gm) rc = Some (VoiceRacerGame g)" and "status g = GamePlaying"
    and "map_of (playerWords g) (playerId a) = Some w" and "w \<noteq> []"
    and "speed = (case map_of (playerSpeeds g) (playerId a) of None \<Rightarrow> 0 | Some v \<Rightarrow> v)"
    and "ms = (case action_matchScore a of None \<Rightarrow> 1 | Some m \<Rightarrow> m)"
    and "boost = (if speed < 0.015 then 0.06 else 0.04) * ms"
  shows "(\<exists>g'. map_of (games (processCommand rc a gm)) rc = Some (VoiceRacerGame g') \<and>
               map_of (playerSpeeds g') (playerId a) = Some (min (speed + boost) (0.15 * ms)) \<and>
               (speed = 0 \<and> ms = 1 \<longrightarrow> map_of (playerSpeeds g') (playerId a) = Some 0.06) \<and>
               (speed = 0 \<and> ms = 2 \<longrightarrow> map_of (playerSpeeds g') (playerId a) = Some 0.12) \<and>
               g' = g\<lparr>playerSpeeds := AList.update (playerId a) (min (speed + boost) (0.15 * ms)) (playerSpeeds g)\<rparr>)"
proof -
  let ?v = "min (speed + boost) (0.15 * ms)"
  let ?g' = "g\<lparr>playerSpeeds := AList.update (playerId a) ?v (playerSpeeds g)\<rparr>"
  have p: "processVoiceRacerCommand g a = ?g'"
    using assms(3-7) by (simp add: processVoiceRacerCommand_def Let_def)
  have "processCommand rc a gm = gm\<lparr>games := AList.update rc (VoiceRacerGame ?g') (games gm)\<rparr>"
    using assms(1,2) p by (simp add: processCommand_def game_status_of_def)
  then have 1: "map_of (games (processCommand rc a gm)) rc = Some (VoiceRacerGame ?g')"
    by (simp add: update_conv')
  have 2: "map_of (playerSpeeds ?g') (playerId a) = Some ?v" by (simp add: update_conv')
  have "speed = 0 \<and> ms = 1 \<longrightarrow> ?v = 0.06" using assms(7) by simp
  then have 3: "speed = 0 \<and> ms = 1 \<longrightarrow> map_of (playerSpeeds ?g') (playerId a) = Some 0.06"
    using 2 by metis
  have "speed = 0 \<and> ms = 2 \<longrightarrow> ?v = 0.12" using assms(7) by simp
  then have 4: "speed = 0 \<and> ms = 2 \<longrightarrow> map_of (playerSpeeds ?g') (playerId a) = Some 0.12"
    using 2 by metis
  show ?thesis using 1 2 3 4 by blast
qed

text \<open>The theorem at a session whose player \<open>p1\<close> stands still, with scores 1 and 2.\<close>

theorem racer_boost_witness:
  "map_of (games (demo_games (VoiceRacerGame demo_racer))) ''AAAA'' = Some (VoiceRacerGame demo_racer) \<and>
   status demo_racer = GamePlaying \<and>
   map_of (playerWords demo_racer) ''p1'' = Some ''wifi'' \<and>
   map_of (playerSpeeds demo_racer) ''p1'' = Some 0 \<and>
   (\<exists>g'. map_of (games (processCommand ''AAAA'' (pull ''p1'' 1) (demo_games (VoiceRacerGame demo_racer)))) ''AAAA''
            = Some (VoiceRacerGame g') \<and> map_of (playerSpeeds g') ''p1'' = Some 0.06) \<and>
   (\<exists>g'. map_of (games (processCommand ''AAAA'' (pull ''p1'' 2) (demo_games (VoiceRacerGame demo_racer)))) ''AAAA''
            = Some (VoiceRacerGame g') \<and> map_of (playerSpeeds g') ''p1'' = Some 0.12)"
proof -
  let ?gm = "demo_games (VoiceRacerGame demo_racer)"
  have m: "map_of (games ?gm) ''AAAA'' = Some (VoiceRacerGame demo_racer)" by (simp add: demo_games_def)
  have st: "status demo_racer = GamePlaying" by (simp add: demo_racer_def)
  have w: "map_of (playerWords demo_racer) ''p1'' = Some ''wifi''" by (simp add: demo_racer_def)
  have sp: "map_of (playerSpeeds demo_racer) ''p1'' = Some 0" by (simp add: demo_racer_def)
  have w1: "map_of (playerWords demo_racer) (playerId (pull ''p1'' m)) = Some ''wifi''" for m
    using w by (simp add: pull_def)
  have s1: "(0::real) = (case map_of (playerSpeeds demo_racer) (playerId (pull ''p1'' m)) of None \<Rightarrow> 0 | Some v \<Rightarrow> v)" for m
    using sp by (simp add: pull_def)
  have m1: "m = (case action_matchScore (pull ''p1'' m) of None \<Rightarrow> 1 | Some m' \<Rightarrow> m')" for m
    by (simp add: pull_def)
  have a: "\<exists>g'. map_of (games (processCommand ''AAAA'' (pull ''p1'' 1) ?gm)) ''AAAA'' = Some (VoiceRacerGame g') \<and>
             map_of (playerSpeeds g') ''p1'' = Some 0.06"
    using racer_boost[OF m st w1 _ s1 m1 refl, of 1] by (auto simp: pull_def)
  have b: "\<exists>g'. map_of (games (processCommand ''AAAA'' (pull ''p1'' 2) ?gm)) ''AAAA'' = Some (VoiceRacerGame g') \<and>
             map_of (playerSpeeds g') ''p1'' = Some 0.12"
    using racer_boost[OF m st w1 _ s1 m1 refl, of 2] by (auto simp: pull_def)
  show ?thesis using m st w sp a b by simp
qed

section \<open>Properties of the command matcher\<close>

subsection \<open>The tiers\<close>

lemma phrase_map_entries:
  "list_all (\<lambda>e. toLowerCase (snd e) = snd e \<and> snd e \<noteq> []) PHRASE_MAP"
  by (simp add: PHRASE_MAP_def toLowerCase_def lower_char_def)

lemma phrase_map_lower:
  assumes "map_of PHRASE_MAP k = Some p"
  shows "toLowerCase p = p \<and> p \<noteq> []"
proof -
  have "(k, p) \<in> set PHRASE_MAP" using assms by (rule map_of_SomeD)
  then show ?thesis using phrase_map_entries unfolding list_all_iff by fastforce
qed

lemma sixty_percent: "(real n \<ge> real m * 0.6) = (10 * n \<ge> 6 * m)"
proof -
  have "(real n \<ge> real m * 0.6) = (real (6 * m) \<le> real (10 * n))"
    by (simp add: mult.commute)
  also have "\<dots> = (10 * n \<ge> 6 * m)" by (simp only: of_nat_le_iff)
  finally show ?thesis .
qed

lemma check_word_spec:
  assumes "map_of PHRASE_MAP (toLowerCase word) = Some p"
  shows "check_word t text conf word = Inr (spec_match t (toLowerCase word) p text conf)"
proof -
  have p: "toLowerCase p = p" "p \<noteq> []" using phrase_map_lower[OF assms] by simp_all
  have g: "PHRASE_MAP_get (toLowerCase word) = Str p" using assms by (simp add: PHRASE_MAP_get_def)
  show ?thesis
    unfolding check_word_def Let_def g
    by (simp add: p phrase_score_def spec_match_def spec_tier_def dynamic_hit_def startsWith_def
        sixty_percent Let_def)
qed

lemma wifi_phrase: "map_of PHRASE_MAP (toLowerCase ''wifi'') = Some ''pandas hack wifi''"
  by (simp add: PHRASE_MAP_def toLowerCase_def lower_char_def)

lemma gravity_phrase: "map_of PHRASE_MAP (toLowerCase ''gravity'') = Some ''squirrels fight gravity''"
  by (simp add: PHRASE_MAP_def toLowerCase_def lower_char_def)

lemma lower_words:
  "toLowerCase ''wifi'' = ''wifi''"
  "toLowerCase ''gravity'' = ''gravity''"
  "toLowerCase ''WiFi'' = ''wifi''"
  by code_simp+

lemma normalized_examples:
  "trim (toLowerCase ''pandas hack wifi'') = ''pandas hack wifi''"
  "trim (toLowerCase ''hack wifi'') = ''hack wifi''"
  "trim (toLowerCase ''wifi'') = ''wifi''"
  "trim (toLowerCase ''wif'') = ''wif''"
  "trim (toLowerCase ''gravity'') = ''gravity''"
  "trim (toLowerCase '' wif'') = ''wif''"
  "toLowerCase '' wif'' = '' wif''"
  "trim (toLowerCase ''  Hack WIFI '') = ''hack wifi''"
  "trim (toLowerCase ''squirrels fight gravity wifi'') = ''squirrels fight gravity wifi''"
  "trim ''wifi'' = ''wifi''"
  "trim ''gravity'' = ''gravity''"
  "trim '' wif'' = ''wif''"
  by code_simp+

lemma wifi_examples:
  "spec_tier ''pandas hack wifi'' ''wifi'' ''pandas hack wifi'' = Some (2, 1)"
  "spec_tier ''hack wifi'' ''wifi'' ''pandas hack wifi'' = Some (3 / 2, 1)"
  "spec_tier ''wifi'' ''wifi'' ''pandas hack wifi'' = Some (1, 1)"
  "spec_tier ''wif'' ''wifi'' ''pandas hack wifi'' = Some (4 / 5, 9 / 10)"
  "spec_tier ''gravity'' ''wifi'' ''pandas hack wifi'' = None"
  "spec_tier '' wif'' ''wifi'' ''pandas hack wifi'' = None"
  "spec_tier ''squirrels fight gravity wifi'' ''wifi'' ''pandas hack wifi'' = Some (1, 1)"
  "spec_tier ''squirrels fight gravity wifi'' ''gravity'' ''squirrels fight gravity'' = Some (2, 1)"
  by (simp_all add: spec_tier_def)

lemma extract_single_word:
  "extract_command text conf [word] =
     (case check_word (trim (toLowerCase text)) text conf word of
        Inl e \<Rightarrow> Inl e
      | Inr (Some c) \<Rightarrow> Inr (Some c)
      | Inr None \<Rightarrow> Inr (fixed_vocabulary (trim (toLowerCase text)) text conf))"
  by (simp add: extract_command_def Let_def split: sum.splits option.splits)

lemma wifi_extract:
  "extract_command ''pandas hack wifi'' conf [''wifi''] = Inr (Some (dynamic_hit ''wifi'' ''pandas hack wifi'' conf 2))"
  "extract_command ''hack wifi'' conf [''wifi''] = Inr (Some (dynamic_hit ''wifi'' ''hack wifi'' conf 1.5))"
  "extract_command ''wifi'' conf [''wifi''] = Inr (Some (dynamic_hit ''wifi'' ''wifi'' conf 1))"
  "extract_command ''wif'' conf [''wifi''] = Inr (Some (dynamic_hit ''wifi'' ''wif'' (conf * 0.9) 0.8))"
  "check_word (trim (toLowerCase ''gravity'')) ''gravity'' conf ''wifi'' = Inr None"
  "extract_command '' wif'' conf [''wifi''] = Inr (Some (dynamic_hit ''wifi'' '' wif'' (conf * 0.9) 0.8))"
  unfolding extract_single_word normalized_examples check_word_spec[OF wifi_phrase] lower_words
    spec_match_def wifi_examples
  by (simp_all add: dynamic_hit_def)

text \<open>
  Beyond ASCII: an accented capital is lower-cased, the multiplication sign is not, and
  a no-break space around the transcript is trimmed like a space.
\<close>

lemma latin1_examples:
  "toLowerCase [CHR 0xC9, CHR ''A'', CHR 0xD7] = [CHR 0xE9, CHR ''a'', CHR 0xD7]"
  "trim (toLowerCase (CHR 0xA0 # ''wif'')) = ''wif''"
  "trim (toLowerCase (CHR 0xA0 # ''Wif'' @ [CHR 0xA0, CHR 0x09])) = ''wif''"
  by code_simp+

lemma nbsp_extract:
  "extract_command (CHR 0xA0 # ''wif'') conf [''wifi'']
     = Inr (Some (dynamic_hit ''wifi'' (CHR 0xA0 # ''wif'') (conf * 0.9) 0.8))"
  unfolding extract_single_word latin1_examples check_word_spec[OF wifi_phrase] lower_words
    spec_match_def wifi_examples
  by (simp add: dynamic_hit_def)

text \<open>
  Claim C3 as stated fails on a transcript with white space around it. For the
  transcript \<^verbatim>\<open>" wif"\<close> and the word \<open>wifi\<close>, no tier of the claim hits on the
  lower-cased transcript (\<open>wifi\<close> does not start with it), yet the code returns the
  fuzzy-prefix match of score 0.8, because it trims the transcript first.
\<close>

theorem untrimmed_transcript_matches:
  "spec_tier (toLowerCase '' wif'') ''wifi'' ''pandas hack wifi'' = None \<and>
   extract_command '' wif'' 1 [''wifi''] = Inr (Some (dynamic_hit ''wifi'' '' wif'' 0.9 0.8))"
proof -
  have a: "spec_tier (toLowerCase '' wif'') ''wifi'' ''pandas hack wifi'' = None"
    unfolding normalized_examples by (rule wifi_examples)
  have b: "extract_command '' wif'' 1 [''wifi''] = Inr (Some (dynamic_hit ''wifi'' '' wif'' 0.9 0.8))"
    using wifi_extract(6)[of 1] by simp
  show ?thesis using a b by simp
qed

text \<open>
  Claim C3, amended. The matcher lower-cases the transcript and trims the white space
  around it (the no-break space included); on that normalised transcript \<open>t\<close>, for a trigger word whose lower-cased
  form has the phrase \<open>p\<close> in \<open>PHRASE_MAP\<close>, it applies the tiers of \<open>spec_tier\<close> in
  order and returns the first hit: score 2 if \<open>t\<close> equals or contains the phrase; else
  1.5 if the phrase has at least three words and \<open>t\<close> contains its last two words, or
  its first two words together with the trigger word; else 1 if \<open>t\<close> equals or
  contains the trigger word; else 0.8, with the confidence multiplied by 0.9, if the
  trigger word has length at least 3, \<open>t\<close> has length at least 2, the trigger word
  starts with \<open>t\<close> and \<open>t\<close> covers at least 60 percent of its length; else no
  dynamic-word match, and the fixed vocabulary decides. For \<open>wifi\<close> the five
  transcripts of the claim give 2, 1.5, 1, 0.8 and no match.
\<close>

theorem matcher_tiers:
  assumes "map_of PHRASE_MAP (toLowerCase word) = Some p" and "t = trim (toLowerCase text)"
  shows "check_word t text conf word = Inr (spec_match t (toLowerCase word) p text conf) \<and>
         extract_command text conf [word] =
           (case spec_match t (toLowerCase word) p text conf of
              Some c \<Rightarrow> Inr (Some c)
            | None \<Rightarrow> Inr (fixed_vocabulary t text conf)) \<and>
         extract_command ''pandas hack wifi'' conf [''wifi'']
           = Inr (Some (dynamic_hit ''wifi'' ''pandas hack wifi'' conf 2)) \<and>
         extract_command ''hack wifi'' conf [''wifi'']
           = Inr (Some (dynamic_hit ''wifi'' ''hack wifi'' conf 1.5)) \<and>
         extract_command ''wifi'' conf [''wifi'']
           = Inr (Some (dynamic_hit ''wifi'' ''wifi'' conf 1)) \<and>
         extract_command ''wif'' conf [''wifi'']
           = Inr (Some (dynamic_hit ''wifi'' ''wif'' (conf * 0.9) 0.8)) \<and>
         check_word (trim (toLowerCase ''gravity'')) ''gravity'' conf ''wifi'' = Inr None"
proof -
  have 1: "check_word t text conf word = Inr (spec_match t (toLowerCase word) p text conf)"
    by (rule check_word_spec[OF assms(1)])
  have 2: "extract_command text conf [word] =
           (case spec_match t (toLowerCase word) p text conf of
              Some c \<Rightarrow> Inr (Some c)
            | None \<Rightarrow> Inr (fixed_vocabulary t text conf))"
    unfolding extract_single_word assms(2)[symmetric] 1 by (simp split: option.splits)
  show ?thesis using 1 2 wifi_extract[of conf] by blast
qed

text \<open>The theorem at the word \<open>WiFi\<close> and a padded, mixed-case transcript.\<close>

theorem matcher_tiers_witness:
  "map_of PHRASE_MAP (toLowerCase ''WiFi'') = Some ''pandas hack wifi'' \<and>
   trim (toLowerCase ''  Hack WIFI '') = ''hack wifi'' \<and>
   extract_command ''  Hack WIFI '' (4 / 5) [''WiFi'']
     = Inr (Some \<lparr>cmd_type = game_specific, command = ''wifi'', confidence = 4 / 5,
                   rawText = ''  Hack WIFI '', matchScore = Some (3 / 2)\<rparr>)"
proof -
  have m: "map_of PHRASE_MAP (toLowerCase ''WiFi'') = Some ''pandas hack wifi''"
    using wifi_phrase unfolding lower_words .
  have t: "''hack wifi'' = trim (toLowerCase ''  Hack WIFI '')"
    unfolding normalized_examples ..
  have s: "spec_match ''hack wifi'' ''wifi'' ''pandas hack wifi'' ''  Hack WIFI '' (4 / 5)
             = Some \<lparr>cmd_type = game_specific, command = ''wifi'', confidence = 4 / 5,
                   rawText = ''  Hack WIFI '', matchScore = Some (3 / 2)\<rparr>"
    unfolding spec_match_def wifi_examples by simp
  have "extract_command ''  Hack WIFI '' (4 / 5) [''WiFi'']
     = Inr (Some \<lparr>cmd_type = game_specific, command = ''wifi'', confidence = 4 / 5,
                   rawText = ''  Hack WIFI '', matchScore = Some (3 / 2)\<rparr>)"
    using matcher_tiers[OF m t, of "4 / 5"] unfolding lower_words s by simp
  then show ?thesis using m t by simp
qed

subsection \<open>Several dynamic words\<close>

lemma check_dynamic_first:
  "check_dynamic t text conf ws = Inr (Some c) \<Longrightarrow>
     \<exists>pre w post. ws = pre @ w # post \<and> check_word t text conf w = Inr (Some c) \<and>
        list_all (\<lambda>u. check_word t text conf u = Inr None) pre"
proof (induction ws)
  case Nil
  then show ?case by simp
next
  case (Cons a ws)
  show ?case
  proof (cases "check_word t text conf a")
    case (Inl e)
    then show ?thesis using Cons.prems by simp
  next
    case (Inr r)
    show ?thesis
    proof (cases r)
      case None
      then have "check_dynamic t text conf ws = Inr (Some c)" using Cons.prems Inr by simp
      then obtain pre w post where "ws = pre @ w # post" "check_word t text conf w = Inr (Some c)"
          "list_all (\<lambda>u. check_word t text conf u = Inr None) pre"
        using Cons.IH by blast
      then have "a # ws = (a # pre) @ w # post \<and> check_word t text conf w = Inr (Some c) \<and>
          list_all (\<lambda>u. check_word t text conf u = Inr None) (a # pre)"
        using Inr None by simp
      then show ?thesis by blast
    next
      case (Some c')
      then have "c' = c" using Cons.prems Inr by simp
      then have "a # ws = [] @ a # ws \<and> check_word t text conf a = Inr (Some c) \<and>
          list_all (\<lambda>u. check_word t text conf u = Inr None) []"
        using Inr Some by simp
      then show ?thesis by blast
    qed
  qed
qed

lemma two_words_example:
  "check_word (trim (toLowerCase ''squirrels fight gravity wifi'')) ''squirrels fight gravity wifi'' conf ''wifi''
     = Inr (Some (dynamic_hit ''wifi'' ''squirrels fight gravity wifi'' conf 1))"
  "check_word (trim (toLowerCase ''squirrels fight gravity wifi'')) ''squirrels fight gravity wifi'' conf ''gravity''
     = Inr (Some (dynamic_hit ''gravity'' ''squirrels fight gravity wifi'' conf 2))"
  unfolding normalized_examples check_word_spec[OF wifi_phrase] check_word_spec[OF gravity_phrase]
    lower_words spec_match_def wifi_examples
  by (simp_all add: dynamic_hit_def)

lemma check_dynamic_skips:
  "list_all (\<lambda>u. check_word t text conf u = Inr None) pre \<Longrightarrow>
     check_dynamic t text conf (pre @ w # post) =
       (case check_word t text conf w of
          Inl e \<Rightarrow> Inl e
        | Inr (Some c) \<Rightarrow> Inr (Some c)
        | Inr None \<Rightarrow> check_dynamic t text conf post)"
  by (induction pre) simp_all

lemma check_dynamic_all_fall_through:
  "list_all (\<lambda>u. check_word t text conf u = Inr None) ws \<Longrightarrow> check_dynamic t text conf ws = Inr None"
  by (induction ws) simp_all

lemma later_word_example:
  "check_word (trim (toLowerCase ''squirrels fight gravity'')) ''squirrels fight gravity'' conf ''wifi'' = Inr None"
  "check_word (trim (toLowerCase ''squirrels fight gravity'')) ''squirrels fight gravity'' conf ''gravity''
     = Inr (Some (dynamic_hit ''gravity'' ''squirrels fight gravity'' conf 2))"
proof -
  have t: "trim (toLowerCase ''squirrels fight gravity'') = ''squirrels fight gravity''" by code_simp
  have a: "spec_tier ''squirrels fight gravity'' ''wifi'' ''pandas hack wifi'' = None"
    by (simp add: spec_tier_def)
  have b: "spec_tier ''squirrels fight gravity'' ''gravity'' ''squirrels fight gravity'' = Some (2, 1)"
    by (simp add: spec_tier_def)
  show "check_word (trim (toLowerCase ''squirrels fight gravity'')) ''squirrels fight gravity'' conf ''wifi'' = Inr None"
    unfolding t check_word_spec[OF wifi_phrase] lower_words spec_match_def a by simp
  show "check_word (trim (toLowerCase ''squirrels fight gravity'')) ''squirrels fight gravity'' conf ''gravity''
     = Inr (Some (dynamic_hit ''gravity'' ''squirrels fight gravity'' conf 2))"
    unfolding t check_word_spec[OF gravity_phrase] lower_words spec_match_def b
    by (simp add: dynamic_hit_def)
qed

text \<open>
  Claim C10. With several dynamic words, \<open>extract\<close> goes through the list in order
  and tries all tiers for a word before it looks at the next one. A match returned by
  the loop is the match of a word before which every word of the list fell through.
  Conversely, when every word before \<open>w\<close> falls through, the loop reaches \<open>w\<close>: it
  returns the match of \<open>w\<close> in whatever tier (or its error), and goes on behind \<open>w\<close>
  only if \<open>w\<close> falls through as well; when all words fall through, the fixed
  vocabulary decides. So for the transcript \<open>squirrels fight gravity wifi\<close> and the
  words \<open>wifi\<close>, \<open>gravity\<close> the result is the bare trigger-word match of \<open>wifi\<close>
  (score 1), although \<open>gravity\<close>, asked alone, matches its full phrase (score 2); for
  the transcript \<open>squirrels fight gravity\<close> the first word falls through and the
  result is the full-phrase match of the second.
\<close>

theorem dynamic_words_in_list_order:
  "(\<forall>c. check_dynamic t text conf ws = Inr (Some c) \<longrightarrow>
      (\<exists>pre w post. ws = pre @ w # post \<and> check_word t text conf w = Inr (Some c) \<and>
         list_all (\<lambda>u. check_word t text conf u = Inr None) pre)) \<and>
   (\<forall>pre w post. list_all (\<lambda>u. check_word t text conf u = Inr None) pre \<longrightarrow>
      check_dynamic t text conf (pre @ w # post) =
        (case check_word t text conf w of
           Inl e \<Rightarrow> Inl e
         | Inr (Some c) \<Rightarrow> Inr (Some c)
         | Inr None \<Rightarrow> check_dynamic t text conf post)) \<and>
   (\<forall>c w. check_word (trim (toLowerCase text)) text conf w = Inr (Some c) \<longrightarrow>
      extract_command text conf (w # ws) = Inr (Some c)) \<and>
   (\<forall>pre w post c.
      list_all (\<lambda>u. check_word (trim (toLowerCase text)) text conf u = Inr None) pre \<and>
      check_word (trim (toLowerCase text)) text conf w = Inr (Some c) \<longrightarrow>
      extract_command text conf (pre @ w # post) = Inr (Some c)) \<and>
   (list_all (\<lambda>u. check_word (trim (toLowerCase text)) text conf u = Inr None) ws \<longrightarrow>
      extract_command text conf ws = Inr (fixed_vocabulary (trim (toLowerCase text)) text conf)) \<and>
   extract_command ''squirrels fight gravity wifi'' conf [''wifi'', ''gravity'']
     = Inr (Some (dynamic_hit ''wifi'' ''squirrels fight gravity wifi'' conf 1)) \<and>
   extract_command ''squirrels fight gravity wifi'' conf [''gravity'']
     = Inr (Some (dynamic_hit ''gravity'' ''squirrels fight gravity wifi'' conf 2)) \<and>
   extract_command ''squirrels fight gravity'' conf [''wifi'', ''gravity'']
     = Inr (Some (dynamic_hit ''gravity'' ''squirrels fight gravity'' conf 2))"
proof -
  have 1: "\<forall>c. check_dynamic t text conf ws = Inr (Some c) \<longrightarrow>
      (\<exists>pre w post. ws = pre @ w # post \<and> check_word t text conf w = Inr (Some c) \<and>
         list_all (\<lambda>u. check_word t text conf u = Inr None) pre)"
    using check_dynamic_first by blast
  have 2: "\<forall>pre w post. list_all (\<lambda>u. check_word t text conf u = Inr None) pre \<longrightarrow>
      check_dynamic t text conf (pre @ w # post) =
        (case check_word t text conf w of
           Inl e \<Rightarrow> Inl e
         | Inr (Some c) \<Rightarrow> Inr (Some c)
         | Inr None \<Rightarrow> check_dynamic t text conf post)"
    using check_dynamic_skips by blast
  have 3: "\<forall>c w. check_word (trim (toLowerCase text)) text conf w = Inr (Some c) \<longrightarrow>
      extract_command text conf (w # ws) = Inr (Some c)"
    by (simp add: extract_command_def Let_def)
  have 4: "\<forall>pre w post c.
      list_all (\<lambda>u. check_word (trim (toLowerCase text)) text conf u = Inr None) pre \<and>
      check_word (trim (toLowerCase text)) text conf w = Inr (Some c) \<longrightarrow>
      extract_command text conf (pre @ w # post) = Inr (Some c)"
    by (simp add: extract_command_def Let_def check_dynamic_skips)
  have 5: "list_all (\<lambda>u. check_word (trim (toLowerCase text)) text conf u = Inr None) ws \<longrightarrow>
      extract_command text conf ws = Inr (fixed_vocabulary (trim (toLowerCase text)) text conf)"
    by (simp add: extract_command_def Let_def check_dynamic_all_fall_through)
  have 6: "extract_command ''squirrels fight gravity wifi'' conf [''wifi'', ''gravity'']
     = Inr (Some (dynamic_hit ''wifi'' ''squirrels fight gravity wifi'' conf 1))"
    using two_words_example(1)[of conf] by (simp add: extract_command_def Let_def)
  have 7: "extract_command ''squirrels fight gravity wifi'' conf [''gravity'']
     = Inr (Some (dynamic_hit ''gravity'' ''squirrels fight gravity wifi'' conf 2))"
    using two_words_example(2)[of conf] by (simp add: extract_command_def Let_def)
  have 8: "extract_command ''squirrels fight gravity'' conf [''wifi'', ''gravity'']
     = Inr (Some (dynamic_hit ''gravity'' ''squirrels fight gravity'' conf 2))"
    using later_word_example[of conf] by (simp add: extract_command_def Let_def)
  show ?thesis using 1 2 3 4 5 6 7 8 by blast
qed

text \<open>
  The theorem at these two transcripts, and at the transcript \<open>gravity\<close> with the one
  word \<open>wifi\<close>, where the loop finds nothing.
\<close>

theorem dynamic_words_in_list_order_witness:
  "check_dynamic ''squirrels fight gravity wifi'' ''squirrels fight gravity wifi'' 1 [''wifi'', ''gravity'']
     = Inr (Some (dynamic_hit ''wifi'' ''squirrels fight gravity wifi'' 1 1)) \<and>
   check_word ''squirrels fight gravity wifi'' ''squirrels fight gravity wifi'' 1 ''gravity''
     = Inr (Some (dynamic_hit ''gravity'' ''squirrels fight gravity wifi'' 1 2)) \<and>
   (\<exists>pre w post. [''wifi'', ''gravity''] = pre @ w # post \<and>
      check_word ''squirrels fight gravity wifi'' ''squirrels fight gravity wifi'' 1 w
        = Inr (Some (dynamic_hit ''wifi'' ''squirrels fight gravity wifi'' 1 1)) \<and>
      list_all (\<lambda>u. check_word ''squirrels fight gravity wifi'' ''squirrels fight gravity wifi'' 1 u = Inr None) pre) \<and>
   extract_command ''squirrels fight gravity wifi'' 1 [''wifi'', ''gravity'']
     = Inr (Some (dynamic_hit ''wifi'' ''squirrels fight gravity wifi'' 1 1)) \<and>
   list_all (\<lambda>u. check_word ''squirrels fight gravity'' ''squirrels fight gravity'' 1 u = Inr None) [''wifi''] \<and>
   check_word ''squirrels fight gravity'' ''squirrels fight gravity'' 1 ''gravity''
     = Inr (Some (dynamic_hit ''gravity'' ''squirrels fight gravity'' 1 2)) \<and>
   check_dynamic ''squirrels fight gravity'' ''squirrels fight gravity'' 1 ([''wifi''] @ ''gravity'' # [])
     = Inr (Some (dynamic_hit ''gravity'' ''squirrels fight gravity'' 1 2)) \<and>
   extract_command ''squirrels fight gravity'' 1 ([''wifi''] @ ''gravity'' # [])
     = Inr (Some (dynamic_hit ''gravity'' ''squirrels fight gravity'' 1 2)) \<and>
   list_all (\<lambda>u. check_word ''gravity'' ''gravity'' 1 u = Inr None) [''wifi''] \<and>
   extract_command ''gravity'' 1 [''wifi''] = Inr (fixed_vocabulary ''gravity'' ''gravity'' 1)"
proof -
  have t: "trim (toLowerCase ''squirrels fight gravity wifi'') = ''squirrels fight gravity wifi''"
    by (rule normalized_examples)
  have t2: "trim (toLowerCase ''squirrels fight gravity'') = ''squirrels fight gravity''" by code_simp
  have t3: "trim (toLowerCase ''gravity'') = ''gravity''" by (rule normalized_examples)
  have w: "check_word ''squirrels fight gravity wifi'' ''squirrels fight gravity wifi'' 1 ''wifi''
     = Inr (Some (dynamic_hit ''wifi'' ''squirrels fight gravity wifi'' 1 1))"
    using two_words_example(1)[of 1] unfolding t .
  have g: "check_word ''squirrels fight gravity wifi'' ''squirrels fight gravity wifi'' 1 ''gravity''
     = Inr (Some (dynamic_hit ''gravity'' ''squirrels fight gravity wifi'' 1 2))"
    using two_words_example(2)[of 1] unfolding t .
  have d: "check_dynamic ''squirrels fight gravity wifi'' ''squirrels fight gravity wifi'' 1 [''wifi'', ''gravity'']
     = Inr (Some (dynamic_hit ''wifi'' ''squirrels fight gravity wifi'' 1 1))"
    using w by simp
  note th = dynamic_words_in_list_order[of "''squirrels fight gravity wifi''" "''squirrels fight gravity wifi''" 1
      "[''wifi'', ''gravity'']"]
  have e: "\<exists>pre w post. [''wifi'', ''gravity''] = pre @ w # post \<and>
      check_word ''squirrels fight gravity wifi'' ''squirrels fight gravity wifi'' 1 w
        = Inr (Some (dynamic_hit ''wifi'' ''squirrels fight gravity wifi'' 1 1)) \<and>
      list_all (\<lambda>u. check_word ''squirrels fight gravity wifi'' ''squirrels fight gravity wifi'' 1 u = Inr None) pre"
    using th d by blast
  have x: "extract_command ''squirrels fight gravity wifi'' 1 [''wifi'', ''gravity'']
     = Inr (Some (dynamic_hit ''wifi'' ''squirrels fight gravity wifi'' 1 1))"
    using dynamic_words_in_list_order[of "''squirrels fight gravity wifi''" "''squirrels fight gravity wifi''" 1
      "[''gravity'']"] w unfolding t by blast
  have f: "list_all (\<lambda>u. check_word ''squirrels fight gravity'' ''squirrels fight gravity'' 1 u = Inr None) [''wifi'']"
    using later_word_example(1)[of 1] unfolding t2 by simp
  have f': "list_all (\<lambda>u. check_word (trim (toLowerCase ''squirrels fight gravity'')) ''squirrels fight gravity'' 1 u = Inr None) [''wifi'']"
    using f unfolding t2 .
  have h: "check_word ''squirrels fight gravity'' ''squirrels fight gravity'' 1 ''gravity''
     = Inr (Some (dynamic_hit ''gravity'' ''squirrels fight gravity'' 1 2))"
    using later_word_example(2)[of 1] unfolding t2 .
  have h': "check_word (trim (toLowerCase ''squirrels fight gravity'')) ''squirrels fight gravity'' 1 ''gravity''
     = Inr (Some (dynamic_hit ''gravity'' ''squirrels fight gravity'' 1 2))"
    using h unfolding t2 .
  note th2 = dynamic_words_in_list_order[of "''squirrels fight gravity''" "''squirrels fight gravity''" 1 "[]"]
  have "check_dynamic ''squirrels fight gravity'' ''squirrels fight gravity'' 1 ([''wifi''] @ ''gravity'' # [])
     = (case check_word ''squirrels fight gravity'' ''squirrels fight gravity'' 1 ''gravity'' of
           Inl e \<Rightarrow> Inl e
         | Inr (Some c) \<Rightarrow> Inr (Some c)
         | Inr None \<Rightarrow> check_dynamic ''squirrels fight gravity'' ''squirrels fight gravity'' 1 [])"
    using th2 f by blast
  then have k: "check_dynamic ''squirrels fight gravity'' ''squirrels fight gravity'' 1 ([''wifi''] @ ''gravity'' # [])
     = Inr (Some (dynamic_hit ''gravity'' ''squirrels fight gravity'' 1 2))"
    unfolding h by simp
  have y: "extract_command ''squirrels fight gravity'' 1 ([''wifi''] @ ''gravity'' # [])
     = Inr (Some (dynamic_hit ''gravity'' ''squirrels fight gravity'' 1 2))"
    using th2 f' h' by blast
  have v: "list_all (\<lambda>u. check_word ''gravity'' ''gravity'' 1 u = Inr None) [''wifi'']"
    using wifi_extract(5)[of 1] unfolding t3 by simp
  have v': "list_all (\<lambda>u. check_word (trim (toLowerCase ''gravity'')) ''gravity'' 1 u = Inr None) [''wifi'']"
    using v unfolding t3 .
  have z: "extract_command ''gravity'' 1 [''wifi''] = Inr (fixed_vocabulary ''gravity'' ''gravity'' 1)"
    using dynamic_words_in_list_order[of "''gravity''" "''gravity''" 1 "[''wifi'']"] v' unfolding t3 by blast
  show ?thesis using d g e x f h k y v z by blast
qed

end
